theory Spec2Isabelle
  imports Main "HOL-Library.Sublist"
begin

section \<open>Python strings\<close>

text \<open>
  The script \<^verbatim>\<open>scripts/spec_kit.py\<close> works on Python \<^verbatim>\<open>str\<close> values. They are
  modelled as \<^typ>\<open>string\<close>, one \<^typ>\<open>char\<close> per code point, so the model covers the
  code points below 256. In that range the regular-expression class \<^verbatim>\<open>\d\<close> and
  \<^verbatim>\<open>[0-9]\<close> are the same ten characters.
\<close>

definition NL :: char where
  "NL = CHR 0x0A"

definition BS :: char where
  "BS = CHR 0x5C"

definition is_digit :: "char \<Rightarrow> bool" where
  "is_digit c = (c \<in> set ''0123456789'')"

definition is_lower_alnum :: "char \<Rightarrow> bool" where
  \<comment> \<open>the class \<^verbatim>\<open>[a-z0-9]\<close>\<close>
  "is_lower_alnum c = (c \<in> set ''abcdefghijklmnopqrstuvwxyz0123456789'')"

definition is_space :: "char \<Rightarrow> bool" where
  \<comment> \<open>\<^verbatim>\<open>str.isspace\<close> on the code points below 256\<close>
  "is_space c = (let n = (of_char c :: nat) in
     (9 \<le> n \<and> n \<le> 13) \<or> (28 \<le> n \<and> n \<le> 32) \<or> n = 133 \<or> n = 160)"

definition lower_char :: "char \<Rightarrow> char" where
  \<comment> \<open>\<^verbatim>\<open>str.lower\<close> on one code point below 256: A-Z and the Latin-1 capitals\<close>
  "lower_char c = (let n = (of_char c :: nat) in
     if (65 \<le> n \<and> n \<le> 90) \<or> (192 \<le> n \<and> n \<le> 222 \<and> n \<noteq> 215)
     then char_of (n + 32) else c)"

definition lower :: "string \<Rightarrow> string" where
  "lower s = map lower_char s"

definition strip :: "string \<Rightarrow> string" where
  \<comment> \<open>\<^verbatim>\<open>s.strip()\<close>\<close>
  "strip s = rev (dropWhile is_space (rev (dropWhile is_space s)))"

definition strip_char :: "char \<Rightarrow> string \<Rightarrow> string" where
  \<comment> \<open>\<^verbatim>\<open>s.strip(c)\<close> for a one-character argument\<close>
  "strip_char c s = rev (dropWhile (\<lambda>x. x = c) (rev (dropWhile (\<lambda>x. x = c) s)))"

fun split_on :: "char \<Rightarrow> string \<Rightarrow> string list" where
  \<comment> \<open>\<^verbatim>\<open>s.split(c)\<close>: one more piece than there are separators\<close>
  "split_on c [] = [[]]"
| "split_on c (x # xs) =
     (if x = c then [] # split_on c xs
      else (case split_on c xs of p # ps \<Rightarrow> (x # p) # ps | [] \<Rightarrow> [[x]]))"

fun join :: "string \<Rightarrow> string list \<Rightarrow> string" where
  \<comment> \<open>\<^verbatim>\<open>sep.join(parts)\<close>\<close>
  "join sep [] = []"
| "join sep [p] = p"
| "join sep (p # q # ps) = p @ sep @ join sep (q # ps)"

definition digit_val :: "char \<Rightarrow> nat" where
  "digit_val c = of_char c - 48"

definition int_of_digits :: "string \<Rightarrow> nat" where
  \<comment> \<open>\<^verbatim>\<open>int(s)\<close> for a string of decimal digits\<close>
  "int_of_digits s = foldl (\<lambda>a c. 10 * a + digit_val c) 0 s"

definition int_of_digits_base :: "nat \<Rightarrow> string \<Rightarrow> nat" where
  \<comment> \<open>\<^verbatim>\<open>int(s, base)\<close> for a string of digits; the empty string counts as 0 here\<close>
  "int_of_digits_base base s = foldl (\<lambda>a c. base * a + digit_val c) 0 s"

definition digit_char :: "nat \<Rightarrow> char" where
  "digit_char d = ''0123456789'' ! d"

fun str_nat :: "nat \<Rightarrow> string" where
  \<comment> \<open>\<^verbatim>\<open>str(n)\<close> for \<^verbatim>\<open>n >= 0\<close>\<close>
  "str_nat n = (if n < 10 then [digit_char n] else str_nat (n div 10) @ [digit_char (n mod 10)])"

declare str_nat.simps [simp del]

definition format_03d :: "nat \<Rightarrow> string" where
  \<comment> \<open>\<^verbatim>\<open>f"{n:03d}"\<close>: zero padding to a minimum width of 3, never a truncation\<close>
  "format_03d n = replicate (3 - length (str_nat n)) (CHR ''0'') @ str_nat n"

section \<open>Paths and the file system\<close>

text \<open>
  The file system is an association list from path strings to nodes; \<^const>\<open>map_of\<close>
  reads it, so the first entry for a path is the node there. Paths are compared as the
  strings the script builds with \<^verbatim>\<open>os.path.join\<close>. The content of a file is the text
  Python reads from it.
\<close>

datatype node = File string | Dir

type_synonym filesystem = "(string \<times> node) list"

definition path_join :: "string \<Rightarrow> string \<Rightarrow> string" where
  \<comment> \<open>\<^verbatim>\<open>os.path.join(a, b)\<close> (posixpath)\<close>
  "path_join a b =
     (if b \<noteq> [] \<and> hd b = CHR ''/'' then b
      else if a = [] \<or> last a = CHR ''/'' then a @ b
      else a @ ''/'' @ b)"

definition basename :: "string \<Rightarrow> string" where
  \<comment> \<open>\<^verbatim>\<open>os.path.basename(p)\<close>\<close>
  "basename p = rev (takeWhile (\<lambda>c. c \<noteq> CHR ''/'') (rev p))"

definition dirname :: "string \<Rightarrow> string" where
  \<comment> \<open>\<^verbatim>\<open>os.path.dirname(p)\<close>: up to the last slash, trailing slashes removed unless
      the head is slashes only\<close>
  "dirname p =
     (let head = rev (dropWhile (\<lambda>c. c \<noteq> CHR ''/'') (rev p)) in
      if head \<noteq> [] \<and> filter (\<lambda>c. c \<noteq> CHR ''/'') head \<noteq> []
      then rev (dropWhile (\<lambda>c. c = CHR ''/'') (rev head)) else head)"

definition isdir :: "filesystem \<Rightarrow> string \<Rightarrow> bool" where
  "isdir fs p = (map_of fs p = Some Dir)"

definition isfile :: "filesystem \<Rightarrow> string \<Rightarrow> bool" where
  "isfile fs p = (case map_of fs p of Some (File c) \<Rightarrow> True | _ \<Rightarrow> False)"

definition fs_put :: "string \<Rightarrow> node \<Rightarrow> filesystem \<Rightarrow> filesystem" where
  "fs_put p n fs = (p, n) # filter (\<lambda>e. fst e \<noteq> p) fs"

definition listdir :: "filesystem \<Rightarrow> string \<Rightarrow> string list" where
  \<comment> \<open>\<^verbatim>\<open>os.listdir(d)\<close>: the names \<open>e\<close> with a node at \<open>path_join d e\<close>\<close>
  "listdir fs d =
     (let pre = path_join d [] in
      remdups (map (\<lambda>p. drop (length pre) p)
        (filter (\<lambda>p. prefix pre p \<and> drop (length pre) p \<noteq> []
                      \<and> CHR ''/'' \<notin> set (drop (length pre) p))
                (map fst fs))))"

section \<open>Errors and the program state\<close>

datatype error =
    ValueError string
  | SystemExit nat
  | FileExistsError string
  | FileNotFoundError string
  | SameFileError string
  | IsADirectoryError string
  | ReError

record config =
  current_feature :: "string option"

text \<open>
  One record holds what a run of the script reads and writes: the fields of
  \<^verbatim>\<open>ProjectManager\<close> (\<open>project_root\<close>, the loaded \<open>config\<close>), \<^verbatim>\<open>sys.argv[0]\<close>, the
  file system, the JSON document stored in \<^verbatim>\<open>spec-kit.json\<close> (\<open>saved_config\<close>, \<open>None\<close>
  while the file is absent) and the lines written to the error stream. Standard output
  carries no state and is left out. Writing \<^verbatim>\<open>spec-kit.json\<close> is taken to succeed.
\<close>

record kit =
  project_root :: string
  script_name :: string
  config :: config
  saved_config :: "config option"
  filesys :: filesystem
  stderr :: "string list"

section \<open>ProjectManager\<close>

definition get_current_feature :: "kit \<Rightarrow> string option" where
  "get_current_feature k = current_feature (config k)"

definition set_current_feature_pm :: "string \<Rightarrow> kit \<Rightarrow> kit" where
  \<comment> \<open>\<^verbatim>\<open>ProjectManager.set_current_feature\<close>: update the dict, then \<^verbatim>\<open>_save_config\<close>\<close>
  "set_current_feature_pm name k =
     (let c = (config k)\<lparr>current_feature := Some name\<rparr>
      in k\<lparr>config := c, saved_config := Some c\<rparr>)"

definition digit_prefix :: "string \<Rightarrow> string option" where
  \<comment> \<open>\<^verbatim>\<open>re.match(r'^(\d+)', entry)\<close>: group 1, when the match succeeds\<close>
  "digit_prefix entry =
     (if takeWhile is_digit entry = [] then None else Some (takeWhile is_digit entry))"

fun scan_entries :: "filesystem \<Rightarrow> string \<Rightarrow> string list \<Rightarrow> nat \<Rightarrow> nat" where
  \<comment> \<open>the \<^verbatim>\<open>for entry in os.listdir(specs_dir)\<close> loop, \<open>highest\<close> as accumulator\<close>
  "scan_entries fs specs_dir [] highest = highest"
| "scan_entries fs specs_dir (entry # es) highest =
     (if isdir fs (path_join specs_dir entry) then
        (case digit_prefix entry of
           Some ds \<Rightarrow>
             (let number = int_of_digits ds in
              if number > highest then scan_entries fs specs_dir es number
              else scan_entries fs specs_dir es highest)
         | None \<Rightarrow> scan_entries fs specs_dir es highest)
      else scan_entries fs specs_dir es highest)"

definition get_next_feature_number :: "kit \<Rightarrow> nat" where
  "get_next_feature_number k =
     (let specs_dir = path_join (project_root k) ''specs'' in
      (if isdir (filesys k) specs_dir
       then scan_entries (filesys k) specs_dir (listdir (filesys k) specs_dir) 0
       else 0) + 1)"

section \<open>FeatureManager\<close>

definition re_match_feature :: "string \<Rightarrow> bool" where
  \<comment> \<open>\<^verbatim>\<open>re.match(r'^[0-9]{3}-', n)\<close>\<close>
  "re_match_feature n =
     (length n \<ge> 4 \<and> is_digit (n ! 0) \<and> is_digit (n ! 1) \<and> is_digit (n ! 2)
      \<and> n ! 3 = CHR ''-'')"

definition check_feature_name :: "string option \<Rightarrow> bool" where
  \<comment> \<open>\<^verbatim>\<open>not feature_name\<close> holds for \<^verbatim>\<open>None\<close> and for the empty string\<close>
  "check_feature_name feature_name =
     (case feature_name of
        None \<Rightarrow> False
      | Some n \<Rightarrow>
          if n = [] then False
          else if \<not> re_match_feature n then False
          else True)"

definition get_feature_dir :: "kit \<Rightarrow> string \<Rightarrow> string" where
  "get_feature_dir k feature_name =
     path_join (path_join (project_root k) ''specs'') feature_name"

record feature_paths =
  PROJECT_ROOT :: string
  CURRENT_FEATURE :: string
  FEATURE_DIR :: string
  FEATURE_SPEC :: string
  IMPL_PLAN :: string
  TASKS :: string
  RESEARCH :: string
  DATA_MODEL :: string
  QUICKSTART :: string
  CONTRACTS_DIR :: string

definition get_feature_paths :: "kit \<Rightarrow> error + feature_paths" where
  "get_feature_paths k =
     (case get_current_feature k of
        None \<Rightarrow> Inl (SystemExit 1)
      | Some cur \<Rightarrow>
          if cur = [] then Inl (SystemExit 1)
          else
            (let feature_dir = get_feature_dir k cur in
             Inr \<lparr> PROJECT_ROOT = project_root k,
                   CURRENT_FEATURE = cur,
                   FEATURE_DIR = feature_dir,
                   FEATURE_SPEC = path_join feature_dir ''spec.md'',
                   IMPL_PLAN = path_join feature_dir ''plan.md'',
                   TASKS = path_join feature_dir ''tasks.md'',
                   RESEARCH = path_join feature_dir ''research.md'',
                   DATA_MODEL = path_join feature_dir ''data-model.md'',
                   QUICKSTART = path_join feature_dir ''quickstart.md'',
                   CONTRACTS_DIR = path_join feature_dir ''contracts'' \<rparr>))"

text \<open>
  \<^verbatim>\<open>os.makedirs(p, exist_ok=True)\<close> as the script uses it: \<open>p\<close> is a direct child of
  a directory that exists (the project root, then \<^verbatim>\<open>specs/\<close>), so at most the
  directory \<open>p\<close> itself is created; a file at \<open>p\<close> raises \<^verbatim>\<open>FileExistsError\<close>.
\<close>

definition makedirs :: "string \<Rightarrow> filesystem \<Rightarrow> error + filesystem" where
  "makedirs p fs =
     (case map_of fs p of
        Some Dir \<Rightarrow> Inr fs
      | Some (File c) \<Rightarrow> Inl (FileExistsError p)
      | None \<Rightarrow> Inr (fs_put p Dir fs))"

fun collapse_hyphens :: "string \<Rightarrow> string" where
  \<comment> \<open>\<^verbatim>\<open>re.sub(r'-+', '-', s)\<close>: of a run of hyphens only the last is kept\<close>
  "collapse_hyphens [] = []"
| "collapse_hyphens [x] = [x]"
| "collapse_hyphens (x # y # xs) =
     (if x = CHR ''-'' \<and> y = CHR ''-'' then collapse_hyphens (y # xs)
      else x # collapse_hyphens (y # xs))"

definition slug_of :: "string \<Rightarrow> string" where
  \<comment> \<open>the lines from \<^verbatim>\<open>re.sub(r'[^a-z0-9]', '-', ...)\<close> to \<^verbatim>\<open>words_str\<close>\<close>
  "slug_of feature_description =
     (let feature_name = map (\<lambda>c. if is_lower_alnum c then c else CHR ''-'')
                             (lower feature_description);
          feature_name = collapse_hyphens feature_name;
          feature_name = strip_char (CHR ''-'') feature_name;
          words = filter (\<lambda>w. w \<noteq> []) (split_on (CHR ''-'') feature_name);
          words = take 3 words
      in join ''-'' words)"

definition final_feature_name :: "nat \<Rightarrow> string \<Rightarrow> string" where
  "final_feature_name next_num feature_description =
     format_03d next_num @ ''-'' @ slug_of feature_description"

record feature_result =
  feature_name :: string
  feature_dir :: string
  feature_num :: string

definition create_new_feature_fm :: "string \<Rightarrow> kit \<Rightarrow> (error + feature_result) \<times> kit" where
  \<comment> \<open>\<^verbatim>\<open>FeatureManager.create_new_feature\<close>\<close>
  "create_new_feature_fm feature_description k =
     (if strip feature_description = [] then
        (Inl (ValueError ''Feature description cannot be empty''), k)
      else
        (let specs_dir = path_join (project_root k) ''specs'' in
         case makedirs specs_dir (filesys k) of
           Inl e \<Rightarrow> (Inl e, k)
         | Inr fs1 \<Rightarrow>
             (let k1 = k\<lparr>filesys := fs1\<rparr>;
                  next_num = get_next_feature_number k1;
                  name = final_feature_name next_num feature_description;
                  dir = path_join specs_dir name
              in case makedirs dir fs1 of
                   Inl e \<Rightarrow> (Inl e, k1)
                 | Inr fs2 \<Rightarrow>
                     (Inr \<lparr> feature_name = name, feature_dir = dir,
                            feature_num = format_03d next_num \<rparr>,
                      set_current_feature_pm name (k1\<lparr>filesys := fs2\<rparr>)))))"

section \<open>FileManager\<close>

text \<open>
  Writing to a path needs the directory of the path: \<^verbatim>\<open>open(p, 'w')\<close> raises
  \<^verbatim>\<open>FileNotFoundError\<close> when \<^verbatim>\<open>dirname(p)\<close> is not a directory. Two paths name the
  same file when they are the same string.
\<close>

definition parent_exists :: "filesystem \<Rightarrow> string \<Rightarrow> bool" where
  "parent_exists fs p = (dirname p = [] \<or> isdir fs (dirname p))"

definition copy2 :: "string \<Rightarrow> string \<Rightarrow> filesystem \<Rightarrow> error + filesystem" where
  \<comment> \<open>\<^verbatim>\<open>shutil.copy2(src, dst)\<close>: a directory \<open>dst\<close> receives the file under the
      base name of \<open>src\<close>; the bytes of \<open>src\<close> replace what was at the destination\<close>
  "copy2 src dst fs =
     (let dst' = (if isdir fs dst then path_join dst (basename src) else dst) in
      if src = dst' then Inl (SameFileError src)
      else
        (case map_of fs src of
           None \<Rightarrow> Inl (FileNotFoundError src)
         | Some Dir \<Rightarrow> Inl (IsADirectoryError src)
         | Some (File c) \<Rightarrow>
             if isdir fs dst' then Inl (IsADirectoryError dst')
             else if \<not> parent_exists fs dst' then Inl (FileNotFoundError dst')
             else Inr (fs_put dst' (File c) fs)))"

definition touch :: "string \<Rightarrow> filesystem \<Rightarrow> error + filesystem" where
  \<comment> \<open>\<^verbatim>\<open>Path(p).touch()\<close>: an existing node only gets a new modification time;
      a missing one is created as an empty file\<close>
  "touch p fs =
     (case map_of fs p of
        Some n \<Rightarrow> Inr fs
      | None \<Rightarrow>
          if \<not> parent_exists fs p then Inl (FileNotFoundError p)
          else Inr (fs_put p (File []) fs))"

definition copy_template :: "string \<Rightarrow> string \<Rightarrow> kit \<Rightarrow> (error + bool) \<times> kit" where
  "copy_template template_name target_path k =
     (let template = path_join (path_join (project_root k) ''templates'') template_name in
      if isfile (filesys k) template then
        (case copy2 template target_path (filesys k) of
           Inl e \<Rightarrow> (Inl e, k)
         | Inr fs' \<Rightarrow> (Inr True, k\<lparr>filesys := fs'\<rparr>))
      else
        (let k1 = k\<lparr>stderr := stderr k @ [''Warning: Template not found at '' @ template]\<rparr> in
         case touch target_path (filesys k) of
           Inl e \<Rightarrow> (Inl e, k1)
         | Inr fs' \<Rightarrow> (Inr False, k1\<lparr>filesys := fs'\<rparr>)))"

section \<open>SpecKit commands\<close>

text \<open>
  A command returns \<open>Inl (SystemExit n)\<close> where the script calls \<^verbatim>\<open>sys.exit(n)\<close>,
  \<open>Inl e\<close> for an exception that leaves the command, and \<open>Inr\<close> with the values it
  prints otherwise.
\<close>

definition check_current_feature :: "kit \<Rightarrow> error + feature_paths" where
  \<comment> \<open>the opening of \<^verbatim>\<open>check_task_prerequisites\<close>, \<^verbatim>\<open>get_feature_paths_command\<close> and
      \<^verbatim>\<open>setup_plan\<close>: \<^verbatim>\<open>get_feature_paths\<close>, then \<^verbatim>\<open>check_feature_name\<close>\<close>
  "check_current_feature k =
     (case get_feature_paths k of
        Inl e \<Rightarrow> Inl (SystemExit 1)
      | Inr paths \<Rightarrow>
          if \<not> check_feature_name (Some (CURRENT_FEATURE paths)) then Inl (SystemExit 1)
          else Inr paths)"

definition check_task_prerequisites :: "kit \<Rightarrow> error + string \<times> string list" where
  \<comment> \<open>returns \<^verbatim>\<open>FEATURE_DIR\<close> and \<^verbatim>\<open>AVAILABLE_DOCS\<close>\<close>
  "check_task_prerequisites k =
     (case check_current_feature k of
        Inl e \<Rightarrow> Inl e
      | Inr paths \<Rightarrow>
          if \<not> isdir (filesys k) (FEATURE_DIR paths) then Inl (SystemExit 1)
          else if \<not> isfile (filesys k) (IMPL_PLAN paths) then Inl (SystemExit 1)
          else Inr (FEATURE_DIR paths,
                 (if isfile (filesys k) (RESEARCH paths) then [''research.md''] else [])
               @ (if isfile (filesys k) (DATA_MODEL paths) then [''data-model.md''] else [])
               @ (if isdir (filesys k) (CONTRACTS_DIR paths)
                     \<and> listdir (filesys k) (CONTRACTS_DIR paths) \<noteq> []
                  then [''contracts/''] else [])
               @ (if isfile (filesys k) (QUICKSTART paths) then [''quickstart.md''] else [])))"

definition get_feature_paths_command :: "kit \<Rightarrow> error + feature_paths" where
  "get_feature_paths_command k = check_current_feature k"

definition setup_plan :: "kit \<Rightarrow> (error + feature_paths) \<times> kit" where
  "setup_plan k =
     (case check_current_feature k of
        Inl e \<Rightarrow> (Inl e, k)
      | Inr paths \<Rightarrow>
          (case makedirs (FEATURE_DIR paths) (filesys k) of
             Inl e \<Rightarrow> (Inl e, k)
           | Inr fs1 \<Rightarrow>
               (case copy_template ''plan-template.md'' (IMPL_PLAN paths) (k\<lparr>filesys := fs1\<rparr>) of
                  (Inl e, k') \<Rightarrow> (Inl e, k')
                | (Inr b, k') \<Rightarrow> (Inr paths, k'))))"

definition create_new_feature :: "string \<Rightarrow> kit \<Rightarrow> (error + feature_result \<times> string) \<times> kit" where
  \<comment> \<open>\<^verbatim>\<open>SpecKit.create_new_feature\<close>; returns the result and \<^verbatim>\<open>SPEC_FILE\<close>\<close>
  "create_new_feature feature_description k =
     (if strip feature_description = [] then
        (Inl (SystemExit 1),
         k\<lparr>stderr := stderr k @
            [''Usage: '' @ script_name k @ '' create-new-feature [--json] <feature_description>'']\<rparr>)
      else
        (case create_new_feature_fm feature_description k of
           (Inl (ValueError m), k') \<Rightarrow>
             (Inl (SystemExit 1), k'\<lparr>stderr := stderr k' @ [''ERROR: '' @ m]\<rparr>)
         | (Inl e, k') \<Rightarrow> (Inl e, k')
         | (Inr result, k') \<Rightarrow>
             (let spec_file = path_join (feature_dir result) ''spec.md'' in
              case copy_template ''spec-template.md'' spec_file k' of
                (Inl e, k'') \<Rightarrow> (Inl e, k'')
              | (Inr b, k'') \<Rightarrow> (Inr (result, spec_file), k''))))"

definition set_current_feature :: "string \<Rightarrow> kit \<Rightarrow> (error + unit) \<times> kit" where
  \<comment> \<open>\<^verbatim>\<open>SpecKit.set_current_feature\<close>\<close>
  "set_current_feature name k =
     (if \<not> check_feature_name (Some name) then (Inl (SystemExit 1), k)
      else
        (let dir = get_feature_dir k name in
         if \<not> isdir (filesys k) dir then (Inl (SystemExit 1), k)
         else (Inr (), set_current_feature_pm name k)))"

section \<open>The specification's wording and example states\<close>

text \<open>
  The numeric prefixes of the immediate subdirectories of \<^verbatim>\<open>specs/\<close> whose names
  start with one or more digits, as the specification describes the Feature Numberer.
\<close>

definition numbered_subdirs :: "kit \<Rightarrow> nat list" where
  "numbered_subdirs k =
     (let specs_dir = path_join (project_root k) ''specs'' in
      map (\<lambda>e. int_of_digits (takeWhile is_digit e))
        (filter (\<lambda>e. isdir (filesys k) (path_join specs_dir e) \<and> e \<noteq> [] \<and> is_digit (hd e))
           (listdir (filesys k) specs_dir)))"

text \<open>A project whose \<^verbatim>\<open>specs/\<close> holds the directories 001-a, 003-b and x-y.\<close>

definition specs_example :: kit where
  "specs_example =
     \<lparr> project_root = ''/p'', script_name = ''spec_kit.py'',
       config = \<lparr> current_feature = None \<rparr>, saved_config = None,
       filesys = [(''/p'', Dir), (''/p/specs'', Dir), (''/p/specs/001-a'', Dir),
                  (''/p/specs/003-b'', Dir), (''/p/specs/x-y'', Dir)],
       stderr = [] \<rparr>"

text \<open>
  The slug as the specification words it: every run of characters outside
  \<^verbatim>\<open>[a-z0-9]\<close> becomes one hyphen, where the script first maps each such character
  to a hyphen and then collapses runs of hyphens.
\<close>

function replace_runs :: "string \<Rightarrow> string" where
  "replace_runs [] = []"
| "replace_runs (x # xs) =
     (if is_lower_alnum x then x # replace_runs xs
      else CHR ''-'' # replace_runs (dropWhile (\<lambda>c. \<not> is_lower_alnum c) xs))"
  by pat_completeness auto

termination
  by (relation "measure length") (auto simp: length_dropWhile_le less_Suc_eq_le)

definition spec_slug :: "string \<Rightarrow> string" where
  "spec_slug description =
     join ''-'' (take 3 (filter (\<lambda>w. w \<noteq> [])
       (split_on (CHR ''-'') (strip_char (CHR ''-'') (replace_runs (lower description))))))"

text \<open>What creating the feature "User Auth System!!" in \<^const>\<open>specs_example\<close> returns and leaves.\<close>

definition user_auth_result :: feature_result where
  "user_auth_result =
     \<lparr> feature_name = ''004-user-auth-system'',
       feature_dir = ''/p/specs/004-user-auth-system'',
       feature_num = ''004'' \<rparr>"

definition user_auth_state :: kit where
  "user_auth_state =
     specs_example
       \<lparr> config := \<lparr> current_feature = Some ''004-user-auth-system'' \<rparr>,
         saved_config := Some \<lparr> current_feature = Some ''004-user-auth-system'' \<rparr>,
         filesys := (''/p/specs/004-user-auth-system'', Dir) # filesys specs_example \<rparr>"

text \<open>A project whose highest feature number is 999.\<close>

definition crowded_example :: kit where
  "crowded_example =
     \<lparr> project_root = ''/p'', script_name = ''spec_kit.py'',
       config = \<lparr> current_feature = None \<rparr>, saved_config = None,
       filesys = [(''/p'', Dir), (''/p/specs'', Dir), (''/p/specs/999-last'', Dir)],
       stderr = [] \<rparr>"

text \<open>The path \<^verbatim>\<open>copy_template\<close> looks the template up at.\<close>

definition template_path :: "kit \<Rightarrow> string \<Rightarrow> string" where
  "template_path k template_name =
     path_join (path_join (project_root k) ''templates'') template_name"

text \<open>A project with one template and a feature that already has a plan.\<close>

definition template_example :: kit where
  "template_example =
     \<lparr> project_root = ''/p'', script_name = ''spec_kit.py'',
       config = \<lparr> current_feature = Some ''001-a'' \<rparr>,
       saved_config = Some \<lparr> current_feature = Some ''001-a'' \<rparr>,
       filesys = [(''/p'', Dir), (''/p/specs'', Dir), (''/p/specs/001-a'', Dir),
                  (''/p/specs/001-a/plan.md'', File ''my plan''),
                  (''/p/templates'', Dir),
                  (''/p/templates/spec-template.md'', File ''# Spec'')],
       stderr = [] \<rparr>"

section \<open>Searching and replacing text\<close>

fun find_sub :: "string \<Rightarrow> string \<Rightarrow> (string \<times> string) option" where
  \<comment> \<open>the text before and after the first occurrence of \<open>sub\<close>\<close>
  "find_sub sub [] = (if sub = [] then Some ([], []) else None)"
| "find_sub sub (x # xs) =
     (if prefix sub (x # xs) then Some ([], drop (length sub) (x # xs))
      else (case find_sub sub xs of None \<Rightarrow> None | Some (b, a) \<Rightarrow> Some (x # b, a)))"

definition is_in :: "string \<Rightarrow> string \<Rightarrow> bool" where
  \<comment> \<open>\<^verbatim>\<open>sub in s\<close>\<close>
  "is_in sub s = (case find_sub sub s of None \<Rightarrow> False | Some m \<Rightarrow> True)"

function replace_all :: "string \<Rightarrow> string \<Rightarrow> string \<Rightarrow> string" where
  \<comment> \<open>\<^verbatim>\<open>s.replace(old, new)\<close>: every occurrence, left to right, without overlap\<close>
  "replace_all old new [] = (if old = [] then new else [])"
| "replace_all old new (x # xs) =
     (if old = [] then new @ x # replace_all old new xs
      else if prefix old (x # xs) then new @ replace_all old new (drop (length old - 1) xs)
      else x # replace_all old new xs)"
  by pat_completeness auto
termination
  by (relation "measure (\<lambda>(old, new, s). length s)") (auto simp: less_Suc_eq_le)

definition search_lazy :: "string \<Rightarrow> string \<Rightarrow> string \<Rightarrow> (string \<times> string \<times> string) option" where
  \<comment> \<open>\<^verbatim>\<open>re.search('H(.*?)T', s, re.DOTALL)\<close> for literal \<open>H\<close> and \<open>T\<close>: the text before
      the match, group 1, the text after the match\<close>
  "search_lazy H T s =
     (case find_sub H s of
        None \<Rightarrow> None
      | Some (b, r) \<Rightarrow>
          (case find_sub T r of
             None \<Rightarrow> None
           | Some (g1, a) \<Rightarrow> Some (b, g1, a)))"

section \<open>Replacement templates of \<^verbatim>\<open>re.sub\<close>\<close>

text \<open>
  \<^verbatim>\<open>re.sub\<close> reads a replacement string as a template (CPython 3.7 and later,
  \<^verbatim>\<open>re._parser.parse_template\<close>): \<^verbatim>\<open>\1\<close> and \<^verbatim>\<open>\g<1>\<close> stand for a group, \<^verbatim>\<open>\n\<close> and
  its kin for control characters, a backslash before another ASCII letter is an error,
  and a backslash before any other character stays. The template is parsed before the
  search starts, so an error is raised whether or not the pattern matches.
\<close>

datatype titem = Lit char | Group nat

definition is_octdigit :: "char \<Rightarrow> bool" where
  "is_octdigit c = (c \<in> set ''01234567'')"

definition is_ascii_letter :: "char \<Rightarrow> bool" where
  "is_ascii_letter c =
     (c \<in> set ''abcdefghijklmnopqrstuvwxyzABCDEFGHIJKLMNOPQRSTUVWXYZ'')"

definition escape_char :: "char \<Rightarrow> char option" where
  \<comment> \<open>the table \<^verbatim>\<open>ESCAPES\<close>\<close>
  "escape_char c =
     (if c = CHR ''a'' then Some (CHR 0x07)
      else if c = CHR ''b'' then Some (CHR 0x08)
      else if c = CHR ''f'' then Some (CHR 0x0C)
      else if c = CHR ''n'' then Some (CHR 0x0A)
      else if c = CHR ''r'' then Some (CHR 0x0D)
      else if c = CHR ''t'' then Some (CHR 0x09)
      else if c = CHR ''v'' then Some (CHR 0x0B)
      else if c = BS then Some BS
      else None)"

definition add_item :: "titem \<Rightarrow> error + titem list \<Rightarrow> error + titem list" where
  "add_item i r = (case r of Inl e \<Rightarrow> Inl e | Inr is \<Rightarrow> Inr (i # is))"

definition add_group :: "nat \<Rightarrow> nat \<Rightarrow> error + titem list \<Rightarrow> error + titem list" where
  \<comment> \<open>\<^verbatim>\<open>addgroup\<close>: a reference beyond the pattern's groups is an error\<close>
  "add_group groups index r =
     (if index > groups then Inl ReError
      else add_item (Group index) r)"

lemma length_dropWhile_minus: "length (dropWhile P xs) - k \<le> Suc (Suc (length xs))"
  using length_dropWhile_le [of P xs] by arith

function parse_template :: "nat \<Rightarrow> string \<Rightarrow> error + titem list" where
  "parse_template groups [] = Inr []"
| "parse_template groups (c # s) =
     (if c \<noteq> BS then add_item (Lit c) (parse_template groups s)
      else
        (case s of
           [] \<Rightarrow> Inl ReError
         | d # s1 \<Rightarrow>
             if d = CHR ''g'' then
               (case s1 of
                  [] \<Rightarrow> Inl ReError
                | l # s2 \<Rightarrow>
                    if l \<noteq> CHR ''<'' then Inl ReError
                    else if dropWhile (\<lambda>x. x \<noteq> CHR ''>'') s2 = []
                    then Inl ReError
                    else if takeWhile (\<lambda>x. x \<noteq> CHR ''>'') s2 = []
                    then Inl ReError
                    else if list_all is_digit (takeWhile (\<lambda>x. x \<noteq> CHR ''>'') s2)
                    then add_group groups (int_of_digits (takeWhile (\<lambda>x. x \<noteq> CHR ''>'') s2))
                           (parse_template groups (tl (dropWhile (\<lambda>x. x \<noteq> CHR ''>'') s2)))
                    else Inl ReError)
             else if d = CHR ''0'' then
               add_item
                 (Lit (char_of (int_of_digits_base 8 (takeWhile is_octdigit (take 2 s1)) mod 256)))
                 (parse_template groups (drop (length (takeWhile is_octdigit (take 2 s1))) s1))
             else if is_digit d then
               (case s1 of
                  [] \<Rightarrow> add_group groups (digit_val d) (parse_template groups s1)
                | x # s2 \<Rightarrow>
                    if \<not> is_digit x then add_group groups (digit_val d) (parse_template groups s1)
                    else
                      (case s2 of
                         [] \<Rightarrow> add_group groups (10 * digit_val d + digit_val x)
                                 (parse_template groups s2)
                       | y # s3 \<Rightarrow>
                           if is_octdigit d \<and> is_octdigit x \<and> is_octdigit y then
                             (if 64 * digit_val d + 8 * digit_val x + digit_val y > 255
                              then Inl ReError
                              else add_item
                                     (Lit (char_of (64 * digit_val d + 8 * digit_val x + digit_val y)))
                                     (parse_template groups s3))
                           else add_group groups (10 * digit_val d + digit_val x)
                                  (parse_template groups s2)))
             else
               (case escape_char d of
                  Some e \<Rightarrow> add_item (Lit e) (parse_template groups s1)
                | None \<Rightarrow>
                    if is_ascii_letter d then Inl ReError
                    else add_item (Lit BS) (add_item (Lit d) (parse_template groups s1)))))"
  by pat_completeness auto
termination
  by (relation "measure (\<lambda>(g, s). length s)")
     (auto simp: less_Suc_eq_le length_dropWhile_minus)

declare parse_template.simps [simp del]

fun expand_template :: "titem list \<Rightarrow> string list \<Rightarrow> string" where
  \<comment> \<open>the parsed template with the groups of one match filled in\<close>
  "expand_template [] gs = []"
| "expand_template (Lit c # is) gs = c # expand_template is gs"
| "expand_template (Group i # is) gs = gs ! i @ expand_template is gs"

section \<open>\<^verbatim>\<open>re.sub\<close> with the patterns of the script\<close>

function sub_lazy :: "string \<Rightarrow> string \<Rightarrow> titem list \<Rightarrow> string \<Rightarrow> string" where
  \<comment> \<open>\<^verbatim>\<open>re.sub('(H).*?(T)', repl, s, flags=re.DOTALL)\<close> for literal \<open>H\<close> and \<open>T\<close> and the
      parsed \<open>repl\<close>: every match, left to right. A match is never empty, since no header
      of the script is, so the search always resumes in a shorter text.\<close>
  "sub_lazy H T items s =
     (case search_lazy H T s of
        None \<Rightarrow> s
      | Some (b, g1, a) \<Rightarrow>
          b @ expand_template items [H @ g1 @ T, H, T]
            @ (if length a < length s then sub_lazy H T items a else a))"
  by pat_completeness auto
termination
  by (relation "measure (\<lambda>(H, T, items, s). length s)") auto

declare sub_lazy.simps [simp del]

definition re_sub_lazy :: "string \<Rightarrow> string \<Rightarrow> string \<Rightarrow> string \<Rightarrow> error + string" where
  "re_sub_lazy H T repl s =
     (case parse_template 2 repl of
        Inl e \<Rightarrow> Inl e
      | Inr items \<Rightarrow> Inr (sub_lazy H T items s))"

fun changes_end :: "string \<Rightarrow> string \<times> string \<times> string" where
  \<comment> \<open>after the header of \<^verbatim>\<open>## Recent Changes\n(.*?)(\n\n|$)\<close>: group 1, group 2 and the
      text after the match. Group 1 ends at the first blank line, or at the end of the
      text, or before a newline that ends the text.\<close>
  "changes_end [] = ([], [], [])"
| "changes_end (x # xs) =
     (if x = NL \<and> xs \<noteq> [] \<and> hd xs = NL then ([], [NL, NL], tl xs)
      else if x = NL \<and> xs = [] then ([], [], [NL])
      else (case changes_end xs of (g1, g2, a) \<Rightarrow> (x # g1, g2, a)))"

definition recent_changes_header :: string where
  "recent_changes_header = ''## Recent Changes\<newline>''"

definition search_changes :: "string \<Rightarrow> (string \<times> string \<times> string \<times> string) option" where
  \<comment> \<open>\<^verbatim>\<open>re.search(r'## Recent Changes\n(.*?)(\n\n|$)', s, re.DOTALL)\<close>\<close>
  "search_changes s =
     (case find_sub recent_changes_header s of
        None \<Rightarrow> None
      | Some (b, r) \<Rightarrow> (case changes_end r of (g1, g2, a) \<Rightarrow> Some (b, g1, g2, a)))"

function sub_changes :: "titem list \<Rightarrow> string \<Rightarrow> string" where
  \<comment> \<open>\<^verbatim>\<open>re.sub(r'(## Recent Changes\n).*?(\n\n|$)', repl, s, flags=re.DOTALL)\<close>\<close>
  "sub_changes items s =
     (case search_changes s of
        None \<Rightarrow> s
      | Some (b, g1, g2, a) \<Rightarrow>
          b @ expand_template items
                [recent_changes_header @ g1 @ g2, recent_changes_header, g2]
            @ (if length a < length s then sub_changes items a else a))"
  by pat_completeness auto
termination
  by (relation "measure (\<lambda>(items, s). length s)") auto

declare sub_changes.simps [simp del]

definition re_sub_changes :: "string \<Rightarrow> string \<Rightarrow> error + string" where
  "re_sub_changes repl s =
     (case parse_template 2 repl of
        Inl e \<Rightarrow> Inl e
      | Inr items \<Rightarrow> Inr (sub_changes items s))"

definition date_at :: "string \<Rightarrow> bool" where
  \<comment> \<open>\<^verbatim>\<open>Last updated: \d{4}-\d{2}-\d{2}\<close> matches at the start of the text\<close>
  "date_at s =
     (prefix ''Last updated: '' s \<and> length s \<ge> 24
      \<and> is_digit (s ! 14) \<and> is_digit (s ! 15) \<and> is_digit (s ! 16) \<and> is_digit (s ! 17)
      \<and> s ! 18 = CHR ''-'' \<and> is_digit (s ! 19) \<and> is_digit (s ! 20)
      \<and> s ! 21 = CHR ''-'' \<and> is_digit (s ! 22) \<and> is_digit (s ! 23))"

function sub_date :: "titem list \<Rightarrow> string \<Rightarrow> string" where
  "sub_date items [] = []"
| "sub_date items (x # xs) =
     (if date_at (x # xs)
      then expand_template items [take 24 (x # xs)] @ sub_date items (drop 23 xs)
      else x # sub_date items xs)"
  by pat_completeness auto
termination
  by (relation "measure (\<lambda>(items, s). length s)") (auto simp: less_Suc_eq_le)

definition re_sub_date :: "string \<Rightarrow> string \<Rightarrow> error + string" where
  \<comment> \<open>\<^verbatim>\<open>re.sub(r'Last updated: \d{4}-\d{2}-\d{2}', repl, s)\<close>\<close>
  "re_sub_date repl s =
     (case parse_template 0 repl of
        Inl e \<Rightarrow> Inl e
      | Inr items \<Rightarrow> Inr (sub_date items s))"

section \<open>The plan's fields\<close>

record plan_fields =
  new_lang :: string
  new_framework :: string
  new_testing :: string
  new_db :: string
  new_project_type :: string

definition field_match :: "string \<Rightarrow> string \<Rightarrow> string option" where
  \<comment> \<open>\<^verbatim>\<open>re.search(r'^\*\*Field\*\*: (.+)$', content, re.MULTILINE)\<close>, group 1: the rest
      of the first line that starts with the marker and goes on after it\<close>
  "field_match field content =
     (let marker = ''**'' @ field @ ''**: '' in
      case filter (\<lambda>l. prefix marker l \<and> length l > length marker) (split_on NL content) of
        [] \<Rightarrow> None
      | l # ls \<Rightarrow> Some (drop (length marker) l))"

definition extract_plan :: "string \<Rightarrow> plan_fields" where
  \<comment> \<open>the \<^verbatim>\<open>try\<close> block of \<^verbatim>\<open>update_agent_context\<close>; every field starts as \<^verbatim>\<open>""\<close>\<close>
  "extract_plan content =
     \<lparr> new_lang =
         (case field_match ''Language/Version'' content of
            Some v \<Rightarrow> if \<not> is_in ''NEEDS CLARIFICATION'' v then strip v else []
          | None \<Rightarrow> []),
       new_framework =
         (case field_match ''Primary Dependencies'' content of
            Some v \<Rightarrow> if \<not> is_in ''NEEDS CLARIFICATION'' v then strip v else []
          | None \<Rightarrow> []),
       new_testing =
         (case field_match ''Testing'' content of
            Some v \<Rightarrow> if \<not> is_in ''NEEDS CLARIFICATION'' v then strip v else []
          | None \<Rightarrow> []),
       new_db =
         (case field_match ''Storage'' content of
            Some v \<Rightarrow> if \<not> is_in ''N/A'' v \<and> \<not> is_in ''NEEDS CLARIFICATION'' v
                      then strip v else []
          | None \<Rightarrow> []),
       new_project_type =
         (case field_match ''Project Type'' content of
            Some v \<Rightarrow> strip v
          | None \<Rightarrow> []) \<rparr>"

section \<open>Patching an existing agent context file\<close>

definition tech_header :: string where
  "tech_header = ''## Active Technologies\<newline>''"

definition blank_line :: string where
  "blank_line = [NL, NL]"

definition tech_additions :: "plan_fields \<Rightarrow> string \<Rightarrow> string \<Rightarrow> string list" where
  \<comment> \<open>\<^verbatim>\<open>new_additions\<close>\<close>
  "tech_additions f feat existing_tech =
     (if new_lang f \<noteq> [] \<and> \<not> is_in (new_lang f) existing_tech
      then [''- '' @ new_lang f @ '' + '' @ new_framework f @ '' ('' @ feat @ '')''] else [])
     @ (if new_db f \<noteq> [] \<and> \<not> is_in (new_db f) existing_tech \<and> new_db f \<noteq> ''N/A''
        then [''- '' @ new_db f @ '' ('' @ feat @ '')''] else [])"

definition tech_step :: "plan_fields \<Rightarrow> string \<Rightarrow> string \<Rightarrow> string" where
  \<comment> \<open>"Check if new tech already exists"\<close>
  "tech_step f feat content =
     (case search_lazy tech_header blank_line content of
        None \<Rightarrow> content
      | Some (b, existing_tech, a) \<Rightarrow>
          (let new_additions = tech_additions f feat existing_tech in
           if new_additions \<noteq> [] then
             (let updated_tech = existing_tech @ [NL] @ join [NL] new_additions in
              replace_all (tech_header @ existing_tech @ blank_line)
                          (tech_header @ updated_tech @ blank_line) content)
           else content))"

definition struct_header :: string where
  "struct_header = ''## Project Structure\<newline>```\<newline>''"

definition fence_end :: string where
  "fence_end = ''\<newline>```''"

definition struct_step :: "plan_fields \<Rightarrow> string \<Rightarrow> error + string" where
  \<comment> \<open>"Update project structure if needed"\<close>
  "struct_step f content =
     (if new_project_type f = ''web'' \<and> \<not> is_in ''frontend/'' content then
        (case search_lazy struct_header fence_end content of
           None \<Rightarrow> Inr content
         | Some (b, g1, a) \<Rightarrow>
             (let updated_struct = g1 @ ''\<newline>frontend/src/ # Web UI'' in
              re_sub_lazy struct_header fence_end
                ([BS, CHR ''1''] @ updated_struct @ [BS, CHR ''2'']) content))
      else Inr content)"

definition commands_bash_header :: string where
  "commands_bash_header = ''## Commands\<newline>```bash\<newline>''"

definition commands_header :: string where
  "commands_header = ''## Commands\<newline>''"

definition language_commands :: "string \<Rightarrow> string" where
  \<comment> \<open>what the patch appends to the commands for a language\<close>
  "language_commands lang =
     (if is_in ''Python'' lang then ''\<newline>cd src && pytest && ruff check .''
      else if is_in ''Rust'' lang then ''\<newline>cargo test && cargo clippy''
      else if is_in ''JavaScript'' lang \<or> is_in ''TypeScript'' lang
      then ''\<newline>npm test && npm run lint''
      else [])"

definition commands_step :: "plan_fields \<Rightarrow> string \<Rightarrow> error + string" where
  \<comment> \<open>"Add new commands if language is new"\<close>
  "commands_step f content =
     (if new_lang f \<noteq> [] \<and> \<not> is_in (''# '' @ new_lang f) content then
        (case (case search_lazy commands_bash_header fence_end content of
                 Some m \<Rightarrow> Some m
               | None \<Rightarrow> search_lazy commands_header blank_line content) of
           None \<Rightarrow> Inr content
         | Some (b, g1, a) \<Rightarrow>
             (let new_commands = g1 @ language_commands (new_lang f) in
              if is_in ''```bash'' content
              then re_sub_lazy commands_bash_header fence_end
                     ([BS, CHR ''1''] @ new_commands @ [BS, CHR ''2'']) content
              else re_sub_lazy commands_header blank_line
                     ([BS, CHR ''1''] @ new_commands @ [BS, CHR ''2'']) content))
      else Inr content)"

definition change_entry :: "plan_fields \<Rightarrow> string \<Rightarrow> string" where
  "change_entry f feat = ''- '' @ feat @ '': Added '' @ new_lang f @ '' + '' @ new_framework f"

definition parse_changes :: "string \<Rightarrow> string list" where
  \<comment> \<open>\<^verbatim>\<open>[c.strip() for c in g1.strip().split('\n') if c.strip()]\<close>\<close>
  "parse_changes g1 = map strip (filter (\<lambda>c. strip c \<noteq> []) (split_on NL (strip g1)))"

definition new_changes :: "plan_fields \<Rightarrow> string \<Rightarrow> string \<Rightarrow> string list" where
  \<comment> \<open>\<^verbatim>\<open>changes.insert(0, ...)\<close>, then \<^verbatim>\<open>changes[:3]\<close>\<close>
  "new_changes f feat g1 = take 3 (change_entry f feat # parse_changes g1)"

definition changes_step :: "plan_fields \<Rightarrow> string \<Rightarrow> string \<Rightarrow> error + string" where
  \<comment> \<open>"Update recent changes (keep only last 3)"\<close>
  "changes_step f feat content =
     (case search_changes content of
        None \<Rightarrow> Inr content
      | Some (b, g1, g2, a) \<Rightarrow>
          re_sub_changes ([BS, CHR ''1''] @ join [NL] (new_changes f feat g1) @ [BS, CHR ''2''])
            content)"

definition date_step :: "string \<Rightarrow> string \<Rightarrow> error + string" where
  \<comment> \<open>"Update date"; \<open>today\<close> is \<^verbatim>\<open>datetime.now().strftime("%Y-%m-%d")\<close>\<close>
  "date_step today content = re_sub_date (''Last updated: '' @ today) content"

definition update_existing :: "plan_fields \<Rightarrow> string \<Rightarrow> string \<Rightarrow> string \<Rightarrow> error + string" where
  \<comment> \<open>the \<^verbatim>\<open>try\<close> block of \<^verbatim>\<open>update_agent_file\<close> between reading and writing the file\<close>
  "update_existing f feat today content =
     (case struct_step f (tech_step f feat content) of
        Inl e \<Rightarrow> Inl e
      | Inr c2 \<Rightarrow>
          (case commands_step f c2 of
             Inl e \<Rightarrow> Inl e
           | Inr c3 \<Rightarrow>
               (case changes_step f feat c3 of
                  Inl e \<Rightarrow> Inl e
                | Inr c4 \<Rightarrow> date_step today c4)))"

section \<open>Creating an agent context file and the command\<close>

definition create_content :: "plan_fields \<Rightarrow> string \<Rightarrow> string \<Rightarrow> string \<Rightarrow> string \<Rightarrow> string" where
  \<comment> \<open>the placeholder replacements of \<^verbatim>\<open>update_agent_file\<close> for a new file\<close>
  "create_content f feat today project_name template_content =
     (let t = replace_all ''[PROJECT NAME]'' project_name template_content;
          t = replace_all ''[DATE]'' today t;
          t = replace_all ''[EXTRACTED FROM ALL PLAN.MD FILES]''
                (''- '' @ new_lang f @ '' + '' @ new_framework f @ '' ('' @ feat @ '')'') t;
          structure = (if is_in ''web'' (lower (new_project_type f))
                       then ''backend/\<newline>frontend/\<newline>tests/''
                       else ''src/\<newline>tests/'');
          t = replace_all ''[ACTUAL STRUCTURE FROM PLANS]'' structure t;
          commands = (if is_in ''Python'' (new_lang f) then ''cd src && pytest && ruff check .''
                      else if is_in ''Rust'' (new_lang f) then ''cargo test && cargo clippy''
                      else if is_in ''JavaScript'' (new_lang f) \<or> is_in ''TypeScript'' (new_lang f)
                      then ''npm test && npm run lint''
                      else ''# Add commands for '' @ new_lang f);
          t = replace_all ''[ONLY COMMANDS FOR ACTIVE TECHNOLOGIES]'' commands t;
          t = replace_all ''[LANGUAGE-SPECIFIC, ONLY FOR LANGUAGES IN USE]''
                (new_lang f @ '': Follow standard conventions'') t;
          t = replace_all ''[LAST 3 FEATURES AND WHAT THEY ADDED]''
                (''- '' @ feat @ '': Added '' @ new_lang f @ '' + '' @ new_framework f) t
      in t)"

definition write_file :: "string \<Rightarrow> string \<Rightarrow> filesystem \<Rightarrow> error + filesystem" where
  \<comment> \<open>\<^verbatim>\<open>open(p, 'w')\<close> and \<^verbatim>\<open>f.write(content)\<close>\<close>
  "write_file p content fs =
     (if isdir fs p then Inl (IsADirectoryError p)
      else if \<not> parent_exists fs p then Inl (FileNotFoundError p)
      else Inr (fs_put p (File content) fs))"

definition update_agent_file ::
    "plan_fields \<Rightarrow> string \<Rightarrow> string \<Rightarrow> string \<Rightarrow> kit \<Rightarrow> (error + bool) \<times> kit" where
  \<comment> \<open>the nested function, with the variables it closes over as arguments; an error
      inside the \<^verbatim>\<open>try\<close> block of the patch is caught and gives \<^verbatim>\<open>False\<close>\<close>
  "update_agent_file f feat today target_file k =
     (case map_of (filesys k) target_file of
        Some (File content) \<Rightarrow>
          (case update_existing f feat today content of
             Inl e \<Rightarrow> (Inr False, k)
           | Inr content' \<Rightarrow>
               (case write_file target_file content' (filesys k) of
                  Inl e \<Rightarrow> (Inr False, k)
                | Inr fs' \<Rightarrow> (Inr True, k\<lparr>filesys := fs'\<rparr>)))
      | _ \<Rightarrow>
          (case map_of (filesys k)
                  (path_join (path_join (project_root k) ''templates'') ''agent-file-template.md'') of
             Some (File template_content) \<Rightarrow>
               (case write_file target_file
                       (create_content f feat today (basename (project_root k)) template_content)
                       (filesys k) of
                  Inl e \<Rightarrow> (Inl e, k)
                | Inr fs' \<Rightarrow> (Inr True, k\<lparr>filesys := fs'\<rparr>))
           | _ \<Rightarrow> (Inr False, k)))"

definition update_agent_files ::
    "plan_fields \<Rightarrow> string \<Rightarrow> string \<Rightarrow> string list \<Rightarrow> kit \<Rightarrow> (error + unit) \<times> kit" where
  \<comment> \<open>the calls of \<^verbatim>\<open>update_agent_file\<close> one after the other; their results are not used\<close>
  "update_agent_files f feat today targets k =
     foldl (\<lambda>r t. case r of
                     (Inl e, k') \<Rightarrow> (Inl e, k')
                   | (Inr u, k') \<Rightarrow>
                       (case update_agent_file f feat today t k' of
                          (Inl e, k'') \<Rightarrow> (Inl e, k'')
                        | (Inr b, k'') \<Rightarrow> (Inr (), k'')))
           (Inr (), k) targets"

definition update_agent_context :: "string option \<Rightarrow> string \<Rightarrow> kit \<Rightarrow> (error + unit) \<times> kit" where
  "update_agent_context agent_type today k =
     (case get_feature_paths k of
        Inl e \<Rightarrow> (Inl (SystemExit 1), k)
      | Inr paths \<Rightarrow>
          (let claude_file = path_join (PROJECT_ROOT paths) ''CLAUDE.md'';
               gemini_file = path_join (PROJECT_ROOT paths) ''GEMINI.md'';
               copilot_file = path_join (path_join (PROJECT_ROOT paths) ''.github'')
                                ''copilot-instructions.md''
           in case map_of (filesys k) (IMPL_PLAN paths) of
                Some (File plan) \<Rightarrow>
                  (let f = extract_plan plan; feat = CURRENT_FEATURE paths in
                   case agent_type of
                     None \<Rightarrow>
                       (let existing = filter (isfile (filesys k))
                                         [claude_file, gemini_file, copilot_file]
                        in if existing \<noteq> [] then update_agent_files f feat today existing k
                           else update_agent_files f feat today [claude_file] k)
                   | Some a \<Rightarrow>
                       if a = ''claude'' then update_agent_files f feat today [claude_file] k
                       else if a = ''gemini'' then update_agent_files f feat today [gemini_file] k
                       else if a = ''copilot'' then update_agent_files f feat today [copilot_file] k
                       else (Inl (SystemExit 1), k))
              | _ \<Rightarrow> (Inl (SystemExit 1), k)))"

section \<open>Example plans and context files\<close>

definition marked_type_plan :: string where
  "marked_type_plan =
     ''**Language/Version**: [NEEDS CLARIFICATION: Python or Go]\<newline>'' @
     ''**Storage**: N/A\<newline>'' @
     ''**Project Type**: web [NEEDS CLARIFICATION: or mobile?]\<newline>''"

definition web_app_plan :: string where
  "web_app_plan = ''**Language/Version**: Go 1.22\<newline>**Project Type**: web application\<newline>''"

definition structure_example :: string where
  "structure_example = ''## Project Structure\<newline>```\<newline>src/\<newline>tests/\<newline>```\<newline>''"

definition template_structure_example :: string where
  "template_structure_example = ''```\<newline>[ACTUAL STRUCTURE FROM PLANS]\<newline>```\<newline>''"

definition go_plan :: string where
  "go_plan = ''**Language/Version**: Go 1.22\<newline>**Primary Dependencies**: chi\<newline>''"

definition escaped_changes_example :: string where
  "escaped_changes_example =
     ''## Recent Changes\<newline>'' @
     ''- 003-c: Added echo a'' @ [BS] @ ''nb\<newline>'' @
     ''- 002-b: Added Go + chi\<newline>'' @
     ''- 001-a: Added Go + chi\<newline>''"

definition regex_changes_example :: string where
  "regex_changes_example =
     ''## Recent Changes\<newline>- 001-a: Added grep '' @ [BS] @ ''d+\<newline>''"

definition changes_example :: string where
  "changes_example = ''## Recent Changes\<newline>- 001-a: Added Rust + serde\<newline>''"

definition patched_once :: string where
  "patched_once =
     ''## Recent Changes\<newline>'' @
     ''- 002-b: Added Go 1.22 + chi\<newline>'' @
     ''- 001-a: Added Rust + serde\<newline>''"

definition patched_twice :: string where
  "patched_twice =
     ''## Recent Changes\<newline>'' @
     ''- 002-b: Added Go 1.22 + chi\<newline>'' @
     ''- 002-b: Added Go 1.22 + chi\<newline>'' @
     ''- 001-a: Added Rust + serde\<newline>''"

definition python_plan :: string where
  "python_plan = ''**Language/Version**: Python 3.11\<newline>''"

definition commands_example :: string where
  "commands_example = ''## Commands\<newline>```bash\<newline>ls\<newline>```\<newline>''"

definition storage_plan :: string where
  "storage_plan = ''**Language/Version**: Go\<newline>**Storage**: PostgreSQL\<newline>''"

definition overlapping_example :: string where
  "overlapping_example =
     ''## Active Technologies\<newline>- x\<newline>'' @
     ''## Recent Changes\<newline>- a\<newline>- b\<newline>- c\<newline>\<newline>''"

definition overlapping_patched :: string where
  "overlapping_patched =
     ''## Active Technologies\<newline>- x\<newline>'' @
     ''## Recent Changes\<newline>- 002-b: Added Go + \<newline>- a\<newline>- b\<newline>\<newline>''"

definition web_plan :: string where
  "web_plan = ''**Project Type**: web\<newline>''"

definition frontend_note_example :: string where
  "frontend_note_example =
     ''## Project Structure\<newline>```\<newline>src/\<newline>```\<newline>\<newline>'' @
     ''The old frontend/ directory is gone.\<newline>''"

section \<open>The Active Technologies section of a context file\<close>

text \<open>
  The text of a context file up to the end of its \<^verbatim>\<open>## Active Technologies\<close> section
  (the blank line that closes it), and the condition that none of the headers the later
  steps of the patch look for, nor a "Last updated: " line, occurs in that text.
\<close>

definition tech_section :: "string \<Rightarrow> string" where
  "tech_section s =
     (case search_lazy tech_header blank_line s of
        None \<Rightarrow> []
      | Some (b, e, a) \<Rightarrow> b @ tech_header @ e @ blank_line)"

definition headers_after :: "string \<Rightarrow> bool" where
  "headers_after P =
     (\<not> is_in struct_header P \<and> \<not> is_in commands_header P
      \<and> \<not> is_in recent_changes_header P \<and> \<not> is_in ''Last updated: '' P)"

text \<open>A context file before a patch, after one run and after a second run with the same plan.\<close>

definition tech_context_example :: string where
  "tech_context_example =
     ''## Active Technologies\<newline>- Rust 1.75 + serde (001-a)\<newline>\<newline>'' @
     ''## Recent Changes\<newline>- 001-a: Added Rust 1.75 + serde\<newline>''"

definition tech_patched_once :: string where
  "tech_patched_once =
     ''## Active Technologies\<newline>- Rust 1.75 + serde (001-a)\<newline>'' @
     ''- Go 1.22 + chi (002-b)\<newline>\<newline>'' @
     ''## Recent Changes\<newline>- 002-b: Added Go 1.22 + chi\<newline>'' @
     ''- 001-a: Added Rust 1.75 + serde\<newline>''"

definition tech_patched_twice :: string where
  "tech_patched_twice =
     ''## Active Technologies\<newline>- Rust 1.75 + serde (001-a)\<newline>'' @
     ''- Go 1.22 + chi (002-b)\<newline>\<newline>'' @
     ''## Recent Changes\<newline>- 002-b: Added Go 1.22 + chi\<newline>'' @
     ''- 002-b: Added Go 1.22 + chi\<newline>'' @
     ''- 001-a: Added Rust 1.75 + serde\<newline>''"

section \<open>Feature numbering\<close>

lemma scan_entries_fold:
  "scan_entries fs d es h =
     fold max (map (\<lambda>e. int_of_digits (takeWhile is_digit e))
       (filter (\<lambda>e. isdir fs (path_join d e) \<and> takeWhile is_digit e \<noteq> []) es)) h"
  by (induction es arbitrary: h) (auto simp: digit_prefix_def Let_def max_def)

lemma takeWhile_nonempty_iff: "takeWhile P e \<noteq> [] \<longleftrightarrow> e \<noteq> [] \<and> P (hd e)"
  by (cases e) auto

lemma scan_entries_numbered:
  "scan_entries (filesys k) (path_join (project_root k) ''specs'')
      (listdir (filesys k) (path_join (project_root k) ''specs'')) 0
   = fold max (numbered_subdirs k) 0"
  by (simp add: scan_entries_fold numbered_subdirs_def takeWhile_nonempty_iff Let_def)

lemma fold_max_zero: "xs \<noteq> [] \<Longrightarrow> fold max xs (0::nat) = Max (set xs)"
proof -
  assume ne: "xs \<noteq> []"
  have "fold max xs (0::nat) = Max (set (0 # xs))"
    by (simp only: Max.set_eq_fold)
  also have "\<dots> = max 0 (Max (set xs))"
    using ne by simp
  finally show ?thesis by simp
qed

text \<open>
  Claim C2. \<^const>\<open>get_next_feature_number\<close> returns 1 when \<^verbatim>\<open>specs/\<close> is absent or
  has no subdirectory with a digit prefix, and otherwise one more than the largest
  numeric prefix of such a subdirectory; names without a digit prefix are skipped.
  With the directories 001-a, 003-b and x-y the result is 4.
\<close>

theorem get_next_feature_number_spec:
  "(\<not> isdir (filesys k) (path_join (project_root k) ''specs'') \<longrightarrow> get_next_feature_number k = 1)
   \<and> (numbered_subdirs k = [] \<longrightarrow> get_next_feature_number k = 1)
   \<and> (isdir (filesys k) (path_join (project_root k) ''specs'') \<and> numbered_subdirs k \<noteq> []
        \<longrightarrow> get_next_feature_number k = Max (set (numbered_subdirs k)) + 1)
   \<and> listdir (filesys specs_example) ''/p/specs'' = [''001-a'', ''003-b'', ''x-y'']
   \<and> get_next_feature_number specs_example = 4"
proof -
  have a: "\<not> isdir (filesys k) (path_join (project_root k) ''specs'') \<Longrightarrow> get_next_feature_number k = 1"
    by (simp add: get_next_feature_number_def)
  have b: "numbered_subdirs k = [] \<Longrightarrow> get_next_feature_number k = 1"
    by (simp add: get_next_feature_number_def Let_def scan_entries_numbered)
  have c: "isdir (filesys k) (path_join (project_root k) ''specs'') \<Longrightarrow> numbered_subdirs k \<noteq> []
        \<Longrightarrow> get_next_feature_number k = Max (set (numbered_subdirs k)) + 1"
    by (simp add: get_next_feature_number_def Let_def scan_entries_numbered fold_max_zero)
  have d: "listdir (filesys specs_example) ''/p/specs'' = [''001-a'', ''003-b'', ''x-y'']"
    by code_simp
  have e: "get_next_feature_number specs_example = 4"
    by code_simp
  from a b c d e show ?thesis by blast
qed

theorem get_next_feature_number_witness:
  "isdir (filesys specs_example) (path_join (project_root specs_example) ''specs'')
   \<and> numbered_subdirs specs_example = [1, 3]
   \<and> get_next_feature_number specs_example = Max (set (numbered_subdirs specs_example)) + 1
   \<and> \<not> isdir [] (path_join ''/q'' ''specs'')
   \<and> get_next_feature_number (specs_example\<lparr>project_root := ''/q'', filesys := []\<rparr>) = 1"
proof -
  have a: "isdir (filesys specs_example) (path_join (project_root specs_example) ''specs'')"
    by code_simp
  have b: "numbered_subdirs specs_example = [1, 3]"
    by code_simp
  have c: "\<not> isdir [] (path_join ''/q'' ''specs'')"
    by code_simp
  show ?thesis
    using a b c get_next_feature_number_spec [of specs_example]
      get_next_feature_number_spec [of "specs_example\<lparr>project_root := ''/q'', filesys := []\<rparr>"]
    by simp
qed

section \<open>Feature creation\<close>

lemma collapse_hyphens_other:
  "x \<noteq> CHR ''-'' \<Longrightarrow> collapse_hyphens (x # ys) = x # collapse_hyphens ys"
  by (cases ys) auto

lemma collapse_hyphens_run:
  "collapse_hyphens (CHR ''-'' # ys) = CHR ''-'' # collapse_hyphens (dropWhile (\<lambda>c. c = CHR ''-'') ys)"
proof (induction ys)
  case Nil
  show ?case by simp
next
  case (Cons y ys)
  show ?case
  proof (cases "y = CHR ''-''")
    case True
    with Cons show ?thesis by simp
  next
    case False
    then show ?thesis by simp
  qed
qed

lemma hyphen_not_alnum: "\<not> is_lower_alnum (CHR ''-'')"
  by (simp add: is_lower_alnum_def)

lemma collapse_map_replace_runs:
  "collapse_hyphens (map (\<lambda>c. if is_lower_alnum c then c else CHR ''-'') s) = replace_runs s"
proof (induction s rule: replace_runs.induct)
  case 1
  show ?case by simp
next
  case (2 x xs)
  let ?f = "\<lambda>c. if is_lower_alnum c then c else CHR ''-''"
  show ?case
  proof (cases "is_lower_alnum x")
    case True
    then have "x \<noteq> CHR ''-''" using hyphen_not_alnum by auto
    with True 2 show ?thesis by (simp add: collapse_hyphens_other)
  next
    case False
    have eq: "(\<lambda>c. c = CHR ''-'') \<circ> ?f = (\<lambda>c. \<not> is_lower_alnum c)"
      using hyphen_not_alnum by (auto simp: fun_eq_iff)
    have "dropWhile (\<lambda>c. c = CHR ''-'') (map ?f xs) = map ?f (dropWhile (\<lambda>c. \<not> is_lower_alnum c) xs)"
      by (simp add: dropWhile_map eq)
    with False 2 show ?thesis by (simp add: collapse_hyphens_run)
  qed
qed

lemma slug_of_spec_slug: "slug_of d = spec_slug d"
  by (simp add: slug_of_def spec_slug_def Let_def collapse_map_replace_runs)

text \<open>
  Claim C3. For a description that is not blank, the slug the script computes is the
  one the specification describes (lowercase, runs outside \<^verbatim>\<open>[a-z0-9]\<close> to one hyphen,
  hyphens stripped at both ends, the first three non-empty tokens joined by hyphens), and
  the name of the created feature is the zero-padded number, a hyphen and that slug.
  "User Auth System!!" gives the slug user-auth-system.
\<close>

theorem create_new_feature_name:
  assumes "strip description \<noteq> []"
    and "create_new_feature_fm description k = (Inr r, k')"
  shows "slug_of description = spec_slug description
    \<and> (\<exists>fs1. makedirs (path_join (project_root k) ''specs'') (filesys k) = Inr fs1
          \<and> feature_num r = format_03d (get_next_feature_number (k\<lparr>filesys := fs1\<rparr>)))
    \<and> feature_name r = feature_num r @ ''-'' @ spec_slug description
    \<and> spec_slug ''User Auth System!!'' = ''user-auth-system''"
proof -
  have a: "slug_of description = spec_slug description"
    by (rule slug_of_spec_slug)
  have b: "spec_slug ''User Auth System!!'' = ''user-auth-system''"
    by code_simp
  from assms have c: "\<exists>fs1. makedirs (path_join (project_root k) ''specs'') (filesys k) = Inr fs1
          \<and> feature_num r = format_03d (get_next_feature_number (k\<lparr>filesys := fs1\<rparr>))"
    by (auto simp: create_new_feature_fm_def Let_def split: sum.splits)
  from assms have d: "feature_name r = feature_num r @ ''-'' @ slug_of description"
    by (auto simp: create_new_feature_fm_def final_feature_name_def Let_def split: sum.splits)
  from a b c d show ?thesis by simp
qed

theorem create_new_feature_name_witness:
  "strip ''User Auth System!!'' \<noteq> []
   \<and> create_new_feature_fm ''User Auth System!!'' specs_example = (Inr user_auth_result, user_auth_state)
   \<and> slug_of ''User Auth System!!'' = spec_slug ''User Auth System!!''
   \<and> feature_name user_auth_result = feature_num user_auth_result @ ''-'' @ spec_slug ''User Auth System!!''"
proof -
  have a: "strip ''User Auth System!!'' \<noteq> []"
    by code_simp
  have b: "create_new_feature_fm ''User Auth System!!'' specs_example = (Inr user_auth_result, user_auth_state)"
    by code_simp
  show ?thesis
    using a b create_new_feature_name [OF a b] by simp
qed

lemma strip_whitespace_only:
  assumes "\<forall>c\<in>set s. is_space c"
  shows "strip s = []"
proof -
  from assms have e: "dropWhile is_space s = []"
    by simp
  show ?thesis unfolding strip_def e by simp
qed

text \<open>
  Claim C5. A description of whitespace only makes \<^verbatim>\<open>FeatureManager.create_new_feature\<close>
  raise \<^verbatim>\<open>ValueError\<close> with the state untouched, and the command exit with status 1
  with the file system, the loaded configuration and the saved configuration unchanged.
\<close>

theorem create_new_feature_rejects_blank:
  assumes "\<forall>c\<in>set description. is_space c"
  shows "create_new_feature_fm description k
           = (Inl (ValueError ''Feature description cannot be empty''), k)
    \<and> fst (create_new_feature description k) = Inl (SystemExit 1)
    \<and> filesys (snd (create_new_feature description k)) = filesys k
    \<and> config (snd (create_new_feature description k)) = config k
    \<and> saved_config (snd (create_new_feature description k)) = saved_config k"
  using strip_whitespace_only [OF assms]
  by (simp add: create_new_feature_fm_def create_new_feature_def)

theorem create_new_feature_rejects_blank_witness:
  "list_all is_space ''   ''
   \<and> create_new_feature_fm ''   '' specs_example
       = (Inl (ValueError ''Feature description cannot be empty''), specs_example)
   \<and> fst (create_new_feature ''   '' specs_example) = Inl (SystemExit 1)
   \<and> filesys (snd (create_new_feature ''   '' specs_example)) = filesys specs_example
   \<and> config (snd (create_new_feature ''   '' specs_example)) = config specs_example"
proof -
  have a: "\<forall>c\<in>set ''   ''. is_space c"
    by (simp add: is_space_def)
  show ?thesis
    using a create_new_feature_rejects_blank [OF a, of specs_example] by (simp add: list_all_iff)
qed

text \<open>
  Claim C6. A name that does not start with three digits and a hyphen, or whose
  directory under \<^verbatim>\<open>specs/\<close> is missing, makes \<^verbatim>\<open>set-current-feature\<close> exit with
  status 1 and leaves the whole state, the saved configuration included, as it was.
\<close>

theorem set_current_feature_rejects:
  assumes "\<not> re_match_feature name \<or> \<not> isdir (filesys k) (get_feature_dir k name)"
  shows "set_current_feature name k = (Inl (SystemExit 1), k)"
  using assms by (auto simp: set_current_feature_def check_feature_name_def Let_def)

theorem set_current_feature_rejects_witness:
  "\<not> re_match_feature ''x-y''
   \<and> set_current_feature ''x-y'' specs_example = (Inl (SystemExit 1), specs_example)
   \<and> re_match_feature ''002-c''
   \<and> \<not> isdir (filesys specs_example) (get_feature_dir specs_example ''002-c'')
   \<and> set_current_feature ''002-c'' specs_example = (Inl (SystemExit 1), specs_example)"
proof -
  have a: "\<not> re_match_feature ''x-y''"
    by (simp add: re_match_feature_def)
  have b: "re_match_feature ''002-c''"
    by (simp add: re_match_feature_def is_digit_def)
  have c: "\<not> isdir (filesys specs_example) (get_feature_dir specs_example ''002-c'')"
    by code_simp
  show ?thesis
    using a b c set_current_feature_rejects [of "''x-y''" specs_example]
      set_current_feature_rejects [of "''002-c''" specs_example]
    by simp
qed

lemma digit_char_is_digit: "d < 10 \<Longrightarrow> is_digit (digit_char d)"
proof -
  assume "d < 10"
  then have "d \<in> {0,1,2,3,4,5,6,7,8,9}" by auto
  then show ?thesis
    by (auto simp: digit_char_def is_digit_def)
qed

lemma str_nat_digits: "\<forall>c\<in>set (str_nat n). is_digit c"
proof (induction n rule: str_nat.induct)
  case (1 n)
  show ?case
  proof (cases "n < 10")
    case True
    then show ?thesis
      by (subst str_nat.simps) (simp add: digit_char_is_digit)
  next
    case False
    with 1 show ?thesis
      by (subst str_nat.simps) (simp add: digit_char_is_digit)
  qed
qed

lemma length_str_nat_1: "1 \<le> length (str_nat n)"
  by (subst str_nat.simps) simp

lemma length_str_nat_2: "10 \<le> n \<Longrightarrow> 2 \<le> length (str_nat n)"
  using length_str_nat_1 [of "n div 10"] by (subst str_nat.simps) simp

lemma length_str_nat_3: "100 \<le> n \<Longrightarrow> 3 \<le> length (str_nat n)"
  using length_str_nat_2 [of "n div 10"] by (subst str_nat.simps) simp

lemma length_str_nat_4: "1000 \<le> n \<Longrightarrow> 4 \<le> length (str_nat n)"
  using length_str_nat_3 [of "n div 10"] by (subst str_nat.simps) simp

lemma hyphen_not_digit: "\<not> is_digit (CHR ''-'')"
  by (simp add: is_digit_def)

lemma takeWhile_digits_hyphen:
  "\<forall>c\<in>set ds. is_digit c \<Longrightarrow> takeWhile is_digit (ds @ CHR ''-'' # rest) = ds"
  by (induction ds) (auto simp: hyphen_not_digit)

text \<open>
  Claim C10. From feature number 1000 on, the \<^verbatim>\<open>03d\<close> format gives more than three
  digits, so the name fails \<^const>\<open>check_feature_name\<close>, and every command that
  validates the current feature exits with status 1 once that name is current.
\<close>

theorem four_digit_feature_rejected:
  assumes "1000 \<le> n"
  shows "takeWhile is_digit (final_feature_name n description) = str_nat n
    \<and> 3 < length (takeWhile is_digit (final_feature_name n description))
    \<and> \<not> check_feature_name (Some (final_feature_name n description))
    \<and> (get_current_feature k = Some (final_feature_name n description) \<longrightarrow>
          check_task_prerequisites k = Inl (SystemExit 1)
        \<and> get_feature_paths_command k = Inl (SystemExit 1)
        \<and> setup_plan k = (Inl (SystemExit 1), k))"
proof -
  let ?name = "final_feature_name n description"
  have len: "4 \<le> length (str_nat n)"
    using assms by (rule length_str_nat_4)
  then have fmt: "format_03d n = str_nat n"
    by (simp add: format_03d_def)
  then have name: "?name = str_nat n @ CHR ''-'' # slug_of description"
    by (simp add: final_feature_name_def)
  have tw: "takeWhile is_digit ?name = str_nat n"
    unfolding name using str_nat_digits by (rule takeWhile_digits_hyphen)
  have "?name ! 3 = str_nat n ! 3"
    unfolding name using len by (simp add: nth_append)
  moreover have "is_digit (str_nat n ! 3)"
    using str_nat_digits [of n] len by simp
  ultimately have "?name ! 3 \<noteq> CHR ''-''"
    using hyphen_not_digit by auto
  then have nomatch: "\<not> re_match_feature ?name"
    by (simp add: re_match_feature_def)
  then have chk: "\<not> check_feature_name (Some ?name)"
    by (simp add: check_feature_name_def)
  have cur: "get_current_feature k = Some ?name \<Longrightarrow> check_current_feature k = Inl (SystemExit 1)"
    using chk by (simp add: check_current_feature_def get_feature_paths_def Let_def)
  show ?thesis
    using tw len chk cur
    by (simp add: check_task_prerequisites_def get_feature_paths_command_def setup_plan_def)
qed

theorem four_digit_feature_rejected_witness:
  "(1000::nat) \<le> 1000
   \<and> get_next_feature_number crowded_example = 1000
   \<and> final_feature_name 1000 ''login page'' = ''1000-login-page''
   \<and> get_current_feature (snd (create_new_feature_fm ''login page'' crowded_example))
        = Some (final_feature_name 1000 ''login page'')
   \<and> \<not> check_feature_name (Some (final_feature_name 1000 ''login page''))
   \<and> get_feature_paths_command (snd (create_new_feature_fm ''login page'' crowded_example))
        = Inl (SystemExit 1)"
proof -
  have a: "(1000::nat) \<le> 1000" by simp
  have b: "get_next_feature_number crowded_example = 1000"
    by code_simp
  have c: "final_feature_name 1000 ''login page'' = ''1000-login-page''"
    by code_simp
  have d: "get_current_feature (snd (create_new_feature_fm ''login page'' crowded_example))
        = Some (final_feature_name 1000 ''login page'')"
    by code_simp
  show ?thesis
    using a b c d
      four_digit_feature_rejected [OF a, of "''login page''"
        "snd (create_new_feature_fm ''login page'' crowded_example)"]
    by simp
qed

section \<open>Template copying\<close>

lemma isfile_fs_put_same: "isfile (fs_put p (File c) fs) p"
  by (simp add: isfile_def fs_put_def)

text \<open>
  Claim C7, amended. For a target that is not a directory, is not the template itself
  and lies in an existing directory: when the template exists its bytes replace the
  target and the result is true; otherwise a warning goes to the error stream, a target
  file that is already there keeps its content, a missing one is created empty, and the
  result is false. In both cases the target file exists afterwards.
\<close>

theorem copy_template_target:
  assumes "\<not> isdir (filesys k) target"
    and "parent_exists (filesys k) target"
    and "target \<noteq> template_path k template_name"
  shows "(\<forall>c. map_of (filesys k) (template_path k template_name) = Some (File c) \<longrightarrow>
            copy_template template_name target k
              = (Inr True, k\<lparr>filesys := fs_put target (File c) (filesys k)\<rparr>))
    \<and> (\<not> isfile (filesys k) (template_path k template_name) \<longrightarrow>
          copy_template template_name target k
            = (Inr False,
               k\<lparr>stderr := stderr k @
                    [''Warning: Template not found at '' @ template_path k template_name],
                 filesys := (if isfile (filesys k) target then filesys k
                             else fs_put target (File []) (filesys k))\<rparr>))
    \<and> isfile (filesys (snd (copy_template template_name target k))) target"
proof -
  let ?t = "template_path k template_name"
  have a: "copy_template template_name target k
              = (Inr True, k\<lparr>filesys := fs_put target (File c) (filesys k)\<rparr>)"
    if "map_of (filesys k) ?t = Some (File c)" for c
    using that assms
    by (simp add: copy_template_def template_path_def [symmetric] isfile_def copy2_def Let_def)
  have b: "copy_template template_name target k
            = (Inr False,
               k\<lparr>stderr := stderr k @ [''Warning: Template not found at '' @ ?t],
                 filesys := (if isfile (filesys k) target then filesys k
                             else fs_put target (File []) (filesys k))\<rparr>)"
    if "\<not> isfile (filesys k) ?t"
    using that assms
    by (auto simp: copy_template_def template_path_def [symmetric] touch_def Let_def isfile_def isdir_def
             split: option.splits node.splits)
  have c: "isfile (filesys (snd (copy_template template_name target k))) target"
  proof (cases "isfile (filesys k) ?t")
    case True
    then obtain c where "map_of (filesys k) ?t = Some (File c)"
      by (auto simp: isfile_def split: option.splits node.splits)
    from a [OF this] show ?thesis by (simp add: isfile_fs_put_same)
  next
    case False
    from b [OF this] show ?thesis by (simp add: isfile_fs_put_same)
  qed
  from a b c show ?thesis by blast
qed

theorem copy_template_target_witness:
  "\<not> isdir (filesys template_example) ''/p/specs/001-a/spec.md''
   \<and> parent_exists (filesys template_example) ''/p/specs/001-a/spec.md''
   \<and> ''/p/specs/001-a/spec.md'' \<noteq> template_path template_example ''spec-template.md''
   \<and> map_of (filesys template_example) (template_path template_example ''spec-template.md'')
        = Some (File ''# Spec'')
   \<and> copy_template ''spec-template.md'' ''/p/specs/001-a/spec.md'' template_example
        = (Inr True, template_example\<lparr>filesys :=
             fs_put ''/p/specs/001-a/spec.md'' (File ''# Spec'') (filesys template_example)\<rparr>)
   \<and> \<not> isfile (filesys template_example) (template_path template_example ''tasks-template.md'')
   \<and> fst (copy_template ''tasks-template.md'' ''/p/specs/001-a/spec.md'' template_example) = Inr False
   \<and> isfile (filesys (snd (copy_template ''tasks-template.md'' ''/p/specs/001-a/spec.md'' template_example)))
        ''/p/specs/001-a/spec.md''"
proof -
  have a: "\<not> isdir (filesys template_example) ''/p/specs/001-a/spec.md''"
    by code_simp
  have b: "parent_exists (filesys template_example) ''/p/specs/001-a/spec.md''"
    by code_simp
  have c: "''/p/specs/001-a/spec.md'' \<noteq> template_path template_example ''spec-template.md''"
    by code_simp
  have c': "''/p/specs/001-a/spec.md'' \<noteq> template_path template_example ''tasks-template.md''"
    by code_simp
  have d: "map_of (filesys template_example) (template_path template_example ''spec-template.md'')
        = Some (File ''# Spec'')"
    by code_simp
  have e: "\<not> isfile (filesys template_example) (template_path template_example ''tasks-template.md'')"
    by code_simp
  show ?thesis
    using a b c d e copy_template_target [OF a b c] copy_template_target [OF a b c']
    by (simp add: isfile_fs_put_same)
qed

text \<open>
  Claim C7 as stated fails: with the template missing and a plan already at the target,
  the call leaves the plan's text in place instead of an empty file.
\<close>

theorem copy_template_keeps_existing_target:
  "\<not> isfile (filesys template_example) (template_path template_example ''plan-template.md'')
   \<and> fst (copy_template ''plan-template.md'' ''/p/specs/001-a/plan.md'' template_example) = Inr False
   \<and> map_of (filesys (snd (copy_template ''plan-template.md'' ''/p/specs/001-a/plan.md'' template_example)))
        ''/p/specs/001-a/plan.md'' = Some (File ''my plan'')
   \<and> map_of (filesys (snd (copy_template ''plan-template.md'' ''/p/specs/001-a/plan.md'' template_example)))
        ''/p/specs/001-a/plan.md'' \<noteq> Some (File [])"
  by code_simp

text \<open>
  The conditions of the amended statement are needed: a target in a directory that does
  not exist raises \<^verbatim>\<open>FileNotFoundError\<close> and leaves no file, and a target that is a
  directory receives the template under the template's own name. Copying the template
  onto itself raises \<^verbatim>\<open>SameFileError\<close>.
\<close>

lemma copy_template_missing_directory:
  "copy_template ''spec-template.md'' ''/p/specs/009-x/spec.md'' template_example
     = (Inl (FileNotFoundError ''/p/specs/009-x/spec.md''), template_example)"
  by code_simp

lemma copy_template_into_directory:
  "fst (copy_template ''spec-template.md'' ''/p/specs/001-a'' template_example) = Inr True
   \<and> isdir (filesys (snd (copy_template ''spec-template.md'' ''/p/specs/001-a'' template_example)))
        ''/p/specs/001-a''
   \<and> map_of (filesys (snd (copy_template ''spec-template.md'' ''/p/specs/001-a'' template_example)))
        ''/p/specs/001-a/spec-template.md'' = Some (File ''# Spec'')"
  by code_simp

lemma copy_template_onto_itself:
  "copy_template ''spec-template.md'' ''/p/templates/spec-template.md'' template_example
     = (Inl (SameFileError ''/p/templates/spec-template.md''), template_example)"
  by code_simp

section \<open>The plan fields and the patch on examples\<close>

text \<open>
  Claim C9 on a plan whose \<^verbatim>\<open>Project Type\<close> line carries the marker NEEDS CLARIFICATION:
  the language with the marker and the storage N/A are dropped, as the claim says, but
  the project type is kept with the marker in it; its line is the only one of the five
  that is not tested for the marker.
\<close>

theorem extract_plan_keeps_marked_project_type:
  "field_match ''Language/Version'' marked_type_plan = Some ''[NEEDS CLARIFICATION: Python or Go]''
   \<and> new_lang (extract_plan marked_type_plan) = []
   \<and> new_db (extract_plan marked_type_plan) = []
   \<and> field_match ''Project Type'' marked_type_plan = Some ''web [NEEDS CLARIFICATION: or mobile?]''
   \<and> is_in ''NEEDS CLARIFICATION'' ''web [NEEDS CLARIFICATION: or mobile?]''
   \<and> new_project_type (extract_plan marked_type_plan) = ''web [NEEDS CLARIFICATION: or mobile?]''"
  by code_simp

text \<open>
  Claim C8 on a plan whose project type "web application" mentions "web", and a context
  file whose structure block has no \<^verbatim>\<open>frontend/\<close> entry: the patch leaves the file as it
  is, because it compares the project type with "web" for equality. Creating a file from
  the template with the same plan does choose the web structure.
\<close>

theorem web_application_gets_no_frontend:
  "new_project_type (extract_plan web_app_plan) = ''web application''
   \<and> is_in ''web'' (new_project_type (extract_plan web_app_plan))
   \<and> \<not> is_in ''frontend/'' structure_example
   \<and> update_existing (extract_plan web_app_plan) ''002-web'' ''2026-11-06'' structure_example
        = Inr structure_example
   \<and> create_content (extract_plan web_app_plan) ''002-web'' ''2026-11-06'' ''p''
        template_structure_example
        = ''```\<newline>backend/\<newline>frontend/\<newline>tests/\<newline>```\<newline>''"
  by code_simp

text \<open>
  Claim C4 on a file whose newest entry contains a backslash followed by \<open>n\<close>: the three
  entries read from the file become, with the new one in front, four lines in the file
  written back, because the joined entries are used as a replacement template. With a
  backslash followed by \<open>d\<close> the template is refused and the patch fails, so no entry is
  added at all.
\<close>

theorem recent_changes_escape_breaks_cap:
  "length (parse_changes (''- 003-c: Added echo a'' @ [BS] @ ''nb\<newline>''
                           @ ''- 002-b: Added Go + chi\<newline>- 001-a: Added Go + chi'')) = 3
   \<and> update_existing (extract_plan go_plan) ''004-d'' ''2026-11-06'' escaped_changes_example
        = Inr (''## Recent Changes\<newline>'' @
               ''- 004-d: Added Go 1.22 + chi\<newline>'' @
               ''- 003-c: Added echo a\<newline>'' @
               ''b\<newline>'' @
               ''- 002-b: Added Go + chi\<newline>'')
   \<and> length (parse_changes (''- 004-d: Added Go 1.22 + chi\<newline>- 003-c: Added echo a\<newline>''
                              @ ''b\<newline>- 002-b: Added Go + chi'')) = 4
   \<and> update_existing (extract_plan go_plan) ''002-b'' ''2026-11-06'' regex_changes_example
        = Inl ReError"
  by code_simp

text \<open>
  Claim C1 as stated fails: the second run with the same plan prepends the same
  "Recent Changes" entry again, so its output differs from the first run's.
\<close>

theorem second_patch_differs:
  "update_existing (extract_plan go_plan) ''002-b'' ''2026-11-06'' changes_example = Inr patched_once
   \<and> update_existing (extract_plan go_plan) ''002-b'' ''2026-11-06'' patched_once = Inr patched_twice
   \<and> patched_once \<noteq> patched_twice"
  by code_simp

section \<open>What the patch writes when the text holds no backslash\<close>

text \<open>
  The three defects shown on examples above have these limits. A field other than the
  project type is dropped when its value carries the marker. When the replacement text
  holds no backslash, the first "Recent Changes" section is rewritten to the new entry
  followed by the first two old ones, and a project type that is exactly "web" adds the
  frontend line to the first structure block.
\<close>

lemma parse_template_plain:
  "BS \<notin> set x \<Longrightarrow>
   parse_template g (x @ y) =
     (case parse_template g y of Inl e \<Rightarrow> Inl e | Inr is \<Rightarrow> Inr (map Lit x @ is))"
proof (induction x)
  case Nil
  show ?case by (simp split: sum.splits)
next
  case (Cons c x)
  then show ?case
    by (simp add: parse_template.simps(2) [of g c] add_item_def split: sum.splits)
qed

lemma parse_template_group2: "parse_template 2 [BS, CHR ''2''] = Inr [Group 2]"
  by (simp add: parse_template.simps add_group_def add_item_def is_digit_def digit_val_def BS_def)

lemma parse_template_wrapped:
  assumes "BS \<notin> set x" and "x = [] \<or> \<not> is_digit (hd x)"
  shows "parse_template 2 ([BS, CHR ''1''] @ x @ [BS, CHR ''2'']) = Inr (Group 1 # map Lit x @ [Group 2])"
proof -
  have rest: "parse_template 2 (x @ [BS, CHR ''2'']) = Inr (map Lit x @ [Group 2])"
    using parse_template_plain [OF assms(1), of 2 "[BS, CHR ''2'']"]
    by (simp add: parse_template_group2)
  obtain x0 s2 where s1: "x @ [BS, CHR ''2''] = x0 # s2" by (cases x) auto
  have nd: "\<not> is_digit x0"
    using assms(2) s1 by (cases x) (auto simp: is_digit_def BS_def)
  have "parse_template 2 (BS # CHR ''1'' # x0 # s2) = add_group 2 1 (parse_template 2 (x0 # s2))"
    using nd by (subst parse_template.simps(2)) (simp add: is_digit_def digit_val_def)
  with rest show ?thesis
    unfolding s1 by (simp add: add_group_def add_item_def)
qed

lemma expand_template_plain:
  "expand_template (map Lit x @ is) gs = x @ expand_template is gs"
  by (induction x) auto

lemma expand_template_wrapped:
  "expand_template (Group 1 # map Lit x @ [Group 2]) [g0, g1, g2] = g1 @ x @ g2"
  by (simp add: expand_template_plain)

lemma new_changes_cap:
  "new_changes f feat g1 = change_entry f feat # take 2 (parse_changes g1)"
  "length (new_changes f feat g1) = min 3 (Suc (length (parse_changes g1)))"
  "2 \<le> length (parse_changes g1) \<Longrightarrow> length (new_changes f feat g1) = 3"
  by (simp_all add: new_changes_def numeral_3_eq_3 numeral_2_eq_2)

lemma changes_step_plain:
  assumes m: "search_changes c = Some (b, g1, g2, a)"
    and nb: "BS \<notin> set (join [NL] (new_changes f feat g1))"
  shows "\<exists>rest. changes_step f feat c
           = Inr (b @ recent_changes_header @ join [NL] (new_changes f feat g1) @ g2 @ rest)"
proof -
  let ?J = "join [NL] (new_changes f feat g1)"
  have J: "?J = join [NL] (change_entry f feat # take 2 (parse_changes g1))"
    by (simp add: new_changes_cap(1))
  have "hd ?J = CHR ''-''"
    unfolding J by (cases "take 2 (parse_changes g1)") (simp_all add: change_entry_def)
  moreover have "?J \<noteq> []"
    unfolding J by (cases "take 2 (parse_changes g1)") (simp_all add: change_entry_def)
  ultimately have nd: "?J = [] \<or> \<not> is_digit (hd ?J)" by (simp add: is_digit_def)
  have p: "parse_template 2 ([BS, CHR ''1''] @ ?J @ [BS, CHR ''2'']) = Inr (Group 1 # map Lit ?J @ [Group 2])"
    using nb nd by (rule parse_template_wrapped)
  have e: "expand_template (Group 1 # map Lit ?J @ [Group 2])
             [recent_changes_header @ g1 @ g2, recent_changes_header, g2]
           = recent_changes_header @ ?J @ g2"
    by (rule expand_template_wrapped)
  have "sub_changes (Group 1 # map Lit ?J @ [Group 2]) c
      = b @ (recent_changes_header @ ?J @ g2)
          @ (if length a < length c then sub_changes (Group 1 # map Lit ?J @ [Group 2]) a else a)"
    by (subst sub_changes.simps) (simp only: m e option.case prod.case)
  moreover have "changes_step f feat c = Inr (sub_changes (Group 1 # map Lit ?J @ [Group 2]) c)"
    unfolding changes_step_def re_sub_changes_def by (simp only: m p option.case prod.case sum.case)
  ultimately show ?thesis by simp
qed

lemma struct_step_plain:
  assumes t: "new_project_type f = ''web''" and nf: "\<not> is_in ''frontend/'' c"
    and m: "search_lazy struct_header fence_end c = Some (b, g1, a)"
    and nb: "BS \<notin> set g1" and nd: "g1 = [] \<or> \<not> is_digit (hd g1)"
  shows "\<exists>rest. struct_step f c
           = Inr (b @ struct_header @ g1 @ ''\<newline>frontend/src/ # Web UI'' @ fence_end @ rest)"
proof -
  let ?u = "g1 @ ''\<newline>frontend/src/ # Web UI''"
  have nb': "BS \<notin> set ?u" using nb by (simp add: BS_def)
  have nd': "?u = [] \<or> \<not> is_digit (hd ?u)"
    using nd by (cases g1) (auto simp: is_digit_def)
  have p: "parse_template 2 ([BS, CHR ''1''] @ ?u @ [BS, CHR ''2'']) = Inr (Group 1 # map Lit ?u @ [Group 2])"
    using nb' nd' by (rule parse_template_wrapped)
  have e: "expand_template (Group 1 # map Lit ?u @ [Group 2])
             [struct_header @ g1 @ fence_end, struct_header, fence_end]
           = struct_header @ ?u @ fence_end"
    by (rule expand_template_wrapped)
  have "sub_lazy struct_header fence_end (Group 1 # map Lit ?u @ [Group 2]) c
      = b @ (struct_header @ ?u @ fence_end)
          @ (if length a < length c
             then sub_lazy struct_header fence_end (Group 1 # map Lit ?u @ [Group 2]) a else a)"
    by (subst sub_lazy.simps) (simp only: m e option.case prod.case)
  moreover have "struct_step f c
      = Inr (sub_lazy struct_header fence_end (Group 1 # map Lit ?u @ [Group 2]) c)"
    unfolding struct_step_def re_sub_lazy_def Let_def
    by (simp only: t nf m p option.case prod.case sum.case simp_thms if_True)
  ultimately show ?thesis by simp
qed

text \<open>
  The test for \<^verbatim>\<open>frontend/\<close> reads the whole file: a mention outside the structure block
  keeps the line from being added.
\<close>

lemma frontend_elsewhere_blocks_structure:
  "new_project_type (extract_plan web_plan) = ''web''
   \<and> search_lazy struct_header fence_end frontend_note_example
        = Some ([], ''src/'', ''\<newline>\<newline>The old frontend/ directory is gone.\<newline>'')
   \<and> struct_step (extract_plan web_plan) frontend_note_example = Inr frontend_note_example"
  by code_simp

lemma extract_plan_marked:
  "field_match ''Language/Version'' p = Some v \<Longrightarrow> is_in ''NEEDS CLARIFICATION'' v
     \<Longrightarrow> new_lang (extract_plan p) = []"
  "field_match ''Primary Dependencies'' p = Some v \<Longrightarrow> is_in ''NEEDS CLARIFICATION'' v
     \<Longrightarrow> new_framework (extract_plan p) = []"
  "field_match ''Testing'' p = Some v \<Longrightarrow> is_in ''NEEDS CLARIFICATION'' v
     \<Longrightarrow> new_testing (extract_plan p) = []"
  "field_match ''Storage'' p = Some v \<Longrightarrow> is_in ''NEEDS CLARIFICATION'' v \<or> is_in ''N/A'' v
     \<Longrightarrow> new_db (extract_plan p) = []"
  "field_match ''Project Type'' p = Some v \<Longrightarrow> new_project_type (extract_plan p) = strip v"
  by (auto simp: extract_plan_def)

lemma field_match_line:
  assumes "field_match field content = Some v"
  shows "v \<noteq> []" and "''**'' @ field @ ''**: '' @ v \<in> set (split_on NL content)"
proof -
  let ?marker = "''**'' @ field @ ''**: ''"
  let ?ls = "filter (\<lambda>l. prefix ?marker l \<and> length l > length ?marker) (split_on NL content)"
  from assms obtain l ls where ls: "?ls = l # ls" and v: "v = drop (length ?marker) l"
    by (auto simp: field_match_def Let_def split: list.splits)
  have "l \<in> set ?ls" unfolding ls by simp
  then have l: "l \<in> set (split_on NL content)" "prefix ?marker l" "length l > length ?marker"
    by auto
  from l(3) show "v \<noteq> []" unfolding v by simp
  from l(2) have "?marker @ v = l" unfolding v by (auto simp: prefix_def)
  with l(1) show "''**'' @ field @ ''**: '' @ v \<in> set (split_on NL content)" by simp
qed

text \<open>
  The command string is appended again on a second run: the guard looks for
  \<^verbatim>\<open># Python 3.11\<close>, which the appended command does not contain.
\<close>

lemma commands_repeated:
  "update_existing (extract_plan python_plan) ''002-b'' ''2026-11-06'' commands_example
     = Inr (''## Commands\<newline>```bash\<newline>ls\<newline>'' @
            ''cd src && pytest && ruff check .\<newline>```\<newline>'')
   \<and> update_existing (extract_plan python_plan) ''002-b'' ''2026-11-06''
        (''## Commands\<newline>```bash\<newline>ls\<newline>'' @
         ''cd src && pytest && ruff check .\<newline>```\<newline>'')
     = Inr (''## Commands\<newline>```bash\<newline>ls\<newline>'' @
            ''cd src && pytest && ruff check .\<newline>'' @
            ''cd src && pytest && ruff check .\<newline>```\<newline>'')"
  by code_simp

section \<open>Running the patch twice\<close>

lemma prefix_drop_id: "prefix sub s \<Longrightarrow> sub @ drop (length sub) s = s"
  by (auto simp: prefix_def)

lemma find_sub_decomp: "find_sub sub s = Some (b, a) \<Longrightarrow> s = b @ sub @ a"
proof (induction s arbitrary: b)
  case Nil
  then show ?case by (simp split: if_splits)
next
  case (Cons x xs)
  show ?case
  proof (cases "prefix sub (x # xs)")
    case True
    with Cons.prems have "b = []" "a = drop (length sub) (x # xs)" by auto
    with True show ?thesis using prefix_drop_id [of sub "x # xs"] by simp
  next
    case False
    with Cons.prems obtain b' where b': "find_sub sub xs = Some (b', a)" "b = x # b'"
      by (auto split: option.splits)
    from Cons.IH [OF b'(1)] b'(2) show ?thesis by simp
  qed
qed

lemma find_sub_self: "find_sub sub (sub @ a) = Some ([], a)"
proof (cases "sub @ a")
  case Nil
  then show ?thesis by simp
next
  case (Cons x xs)
  then have p: "prefix sub (x # xs)" by (metis prefixI)
  from Cons have d: "drop (length sub) (x # xs) = a" by (metis append_eq_conv_conj)
  from p d show ?thesis unfolding Cons by simp
qed

lemma prefix_short: "prefix sub (u @ v) \<Longrightarrow> length sub \<le> length u \<Longrightarrow> prefix sub u"
  by (metis prefix_append prefix_length_le append_eq_append_conv_if prefix_def le_antisym length_append le_add1 append.right_neutral prefix_order.eq_iff)

lemma find_sub_extend: "find_sub sub s = Some (b, a) \<Longrightarrow> find_sub sub (b @ sub @ a') = Some (b, a')"
proof (induction s arbitrary: b)
  case Nil
  then show ?case using find_sub_self [of "[]" a'] by (simp split: if_splits)
next
  case (Cons x xs)
  show ?case
  proof (cases "prefix sub (x # xs)")
    case True
    with Cons.prems have "b = []" by auto
    then show ?thesis using find_sub_self [of sub a'] by simp
  next
    case False
    with Cons.prems obtain b' where b': "find_sub sub xs = Some (b', a)" "b = x # b'"
      by (auto split: option.splits)
    have xs: "xs = b' @ sub @ a" using find_sub_decomp [OF b'(1)] .
    have "\<not> prefix sub (x # b' @ sub @ a')"
    proof
      assume "prefix sub (x # b' @ sub @ a')"
      then have "prefix sub ((x # b' @ sub) @ a')" by simp
      then have "prefix sub (x # b' @ sub)" by (rule prefix_short) simp
      then have "prefix sub ((x # b' @ sub) @ a)" by (rule prefix_prefix)
      with False xs show False by simp
    qed
    with Cons.IH [OF b'(1)] b'(2) show ?thesis by simp
  qed
qed

lemma is_in_sublist: "is_in sub s \<longleftrightarrow> sublist sub s"
proof
  assume "is_in sub s"
  then obtain b a where "find_sub sub s = Some (b, a)"
    by (auto simp: is_in_def split: option.splits)
  from find_sub_decomp [OF this] show "sublist sub s" by (auto simp: sublist_def)
next
  assume "sublist sub s"
  then obtain ps ss where s: "s = ps @ sub @ ss" by (auto simp: sublist_def)
  have "find_sub sub (ps @ sub @ ss) \<noteq> None"
  proof (induction ps)
    case Nil
    show ?case using find_sub_self [of sub ss] by simp
  next
    case (Cons p ps)
    then show ?case by (auto split: option.splits)
  qed
  with s show "is_in sub s" by (auto simp: is_in_def split: option.splits)
qed

lemma is_in_append_left: "is_in sub s \<Longrightarrow> is_in sub (s @ t)"
  by (simp add: is_in_sublist sublist_appendI sublist_order.order_trans)

lemma is_in_append_right: "is_in sub s \<Longrightarrow> is_in sub (t @ s)"
  by (metis is_in_sublist sublist_append_leftI sublist_order.order_trans sublist_order.order_refl)

lemma find_sub_Cons_other:
  "find_sub sub (x # s) = Some (x' # b, a) \<Longrightarrow> \<not> prefix sub (x # s) \<and> x' = x \<and> find_sub sub s = Some (b, a)"
  by (auto split: if_splits option.splits)

lemma replace_all_first:
  assumes "find_sub H (b @ old @ a) = Some (b, r)" and "prefix H old" and "old \<noteq> []"
  shows "replace_all old new (b @ old @ a) = b @ new @ replace_all old new a"
  using assms(1)
proof (induction b)
  case Nil
  obtain x xs where c: "old @ a = x # xs" using assms(3) by (cases "old @ a") auto
  then have p: "prefix old (x # xs)" by (metis prefixI)
  from c assms(3) have d: "drop (length old - 1) xs = a"
    by (cases old) (auto simp: append_eq_Cons_conv)
  show ?case using assms(3) p d unfolding append_Nil c by simp
next
  case (Cons x b)
  from find_sub_Cons_other [of H x "b @ old @ a" x b r] Cons.prems
  have np: "\<not> prefix H (x # b @ old @ a)" and f: "find_sub H (b @ old @ a) = Some (b, r)"
    by auto
  from np assms(2) have "\<not> prefix old (x # b @ old @ a)"
    using prefix_order.order_trans by blast
  with Cons.IH [OF f] assms(3) show ?case by simp
qed

lemma find_blank_Cons:
  "find_sub blank_line (x # xs) =
     (if x = NL \<and> xs \<noteq> [] \<and> hd xs = NL then Some ([], tl xs)
      else (case find_sub blank_line xs of None \<Rightarrow> None | Some (b, a) \<Rightarrow> Some (x # b, a)))"
  by (cases xs) (auto simp: blank_line_def)

lemma find_blank_Nil: "find_sub blank_line [] = None"
  by (simp add: blank_line_def)

lemma find_blank_none: "NL \<notin> set s \<Longrightarrow> find_sub blank_line s = None"
  by (induction s) (auto simp: find_blank_Cons find_blank_Nil simp del: find_sub.simps)

lemma find_blank_two_lines:
  "NL \<notin> set s1 \<Longrightarrow> NL \<notin> set s2 \<Longrightarrow> s1 \<noteq> [] \<Longrightarrow> s2 \<noteq> [] \<Longrightarrow>
   find_sub blank_line (s1 @ NL # s2) = None"
proof (induction s1)
  case Nil
  then show ?case by simp
next
  case (Cons x s1)
  show ?case
  proof (cases "s1 = []")
    case True
    with Cons.prems show ?thesis
      by (cases s2) (auto simp: find_blank_Cons find_blank_none simp del: find_sub.simps)
  next
    case False
    with Cons show ?thesis by (auto simp: find_blank_Cons simp del: find_sub.simps)
  qed
qed

lemma find_blank_after:
  "find_sub blank_line J = None \<Longrightarrow> J \<noteq> [] \<Longrightarrow> last J \<noteq> NL \<Longrightarrow>
   find_sub blank_line (J @ blank_line @ a) = Some (J, a)"
proof (induction J)
  case Nil
  then show ?case by simp
next
  case (Cons x J)
  show ?case
  proof (cases "J = []")
    case True
    with Cons.prems have "x \<noteq> NL" by simp
    then show ?thesis
      unfolding True by (simp add: find_blank_Cons find_sub_self del: find_sub.simps)
  next
    case False
    from Cons.prems(1) have n: "\<not> (x = NL \<and> hd J = NL)" and f: "find_sub blank_line J = None"
      using False by (auto simp: find_blank_Cons simp del: find_sub.simps split: if_splits option.splits)
    from Cons.prems False have l: "last J \<noteq> NL" by simp
    from Cons.IH [OF f False l] n False show ?thesis
      by (simp add: find_blank_Cons del: find_sub.simps)
  qed
qed

lemma find_blank_insert:
  "find_sub blank_line (e @ blank_line @ a) = Some (e, a) \<Longrightarrow> y \<noteq> NL \<Longrightarrow>
   find_sub blank_line (e @ NL # y # s) =
     (case find_sub blank_line (y # s) of None \<Rightarrow> None | Some (b, r) \<Rightarrow> Some (e @ NL # b, r))"
proof (induction e)
  case Nil
  then show ?case by (simp add: find_blank_Cons del: find_sub.simps split: option.splits)
next
  case (Cons x e)
  from find_sub_Cons_other [of blank_line x "e @ blank_line @ a" x e a] Cons.prems(1)
  have np: "\<not> prefix blank_line (x # e @ blank_line @ a)"
    and f: "find_sub blank_line (e @ blank_line @ a) = Some (e, a)"
    by auto
  have "\<not> (x = NL \<and> hd (e @ NL # y # s) = NL)"
    using np by (cases e) (auto simp: blank_line_def)
  with Cons.IH [OF f Cons.prems(2)] show ?case
    by (auto simp: find_blank_Cons simp del: find_sub.simps split: option.splits)
qed

lemma split_on_no_sep: "l \<in> set (split_on c s) \<Longrightarrow> c \<notin> set l"
proof (induction s arbitrary: l)
  case Nil
  then show ?case by simp
next
  case (Cons x s)
  then show ?case
    by (cases "split_on c s") (auto split: if_splits)
qed

lemma field_match_no_NL: "field_match field content = Some v \<Longrightarrow> NL \<notin> set v"
proof -
  assume m: "field_match field content = Some v"
  let ?marker = "''**'' @ field @ ''**: ''"
  let ?ls = "filter (\<lambda>l. prefix ?marker l \<and> length l > length ?marker) (split_on NL content)"
  from m obtain l ls where ls: "?ls = l # ls" and v: "v = drop (length ?marker) l"
    by (auto simp: field_match_def Let_def split: list.splits)
  have "l \<in> set ?ls" unfolding ls by simp
  then have "l \<in> set (split_on NL content)" by simp
  then have "NL \<notin> set l" by (rule split_on_no_sep)
  then show ?thesis unfolding v by (meson in_set_dropD)
qed

lemma set_strip: "set (strip v) \<subseteq> set v"
  unfolding strip_def by (metis set_dropWhileD set_rev subsetI)

lemma strip_no_NL: "NL \<notin> set v \<Longrightarrow> NL \<notin> set (strip v)"
  using set_strip by blast

lemma field_value_no_NL: "Some v = field_match field content \<Longrightarrow> NL \<in> set (strip v) \<Longrightarrow> False"
  using field_match_no_NL [of field content v] strip_no_NL [of v] by simp

lemma extract_plan_no_NL:
  "NL \<notin> set (new_lang (extract_plan p))"
  "NL \<notin> set (new_framework (extract_plan p))"
  "NL \<notin> set (new_db (extract_plan p))"
  by (auto simp: extract_plan_def dest: field_value_no_NL split: option.splits)

lemma is_in_middle: "is_in x (p @ x @ q)"
  by (simp add: is_in_sublist)

lemma tech_line_props:
  assumes "NL \<notin> set x" and "NL \<notin> set rest"
  shows "NL \<notin> set (''- '' @ x @ rest)" and "''- '' @ x @ rest \<noteq> []"
    and "hd (''- '' @ x @ rest) \<noteq> NL" and "is_in x (''- '' @ x @ rest)"
proof -
  show "NL \<notin> set (''- '' @ x @ rest)" using assms by (auto simp: NL_def)
  show "''- '' @ x @ rest \<noteq> []" by simp
  show "hd (''- '' @ x @ rest) \<noteq> NL" by (simp add: NL_def)
  show "is_in x (''- '' @ x @ rest)" by (rule is_in_middle)
qed

lemma additions_joined:
  assumes nl: "NL \<notin> set (new_lang f)" "NL \<notin> set (new_framework f)" "NL \<notin> set (new_db f)"
      "NL \<notin> set feat"
    and ne: "tech_additions f feat e \<noteq> []"
  shows "join [NL] (tech_additions f feat e) \<noteq> []"
    and "hd (join [NL] (tech_additions f feat e)) \<noteq> NL"
    and "last (join [NL] (tech_additions f feat e)) \<noteq> NL"
    and "find_sub blank_line (join [NL] (tech_additions f feat e)) = None"
    and "new_lang f \<noteq> [] \<Longrightarrow> \<not> is_in (new_lang f) e
           \<Longrightarrow> is_in (new_lang f) (join [NL] (tech_additions f feat e))"
    and "new_db f \<noteq> [] \<Longrightarrow> \<not> is_in (new_db f) e \<Longrightarrow> new_db f \<noteq> ''N/A''
           \<Longrightarrow> is_in (new_db f) (join [NL] (tech_additions f feat e))"
proof -
  let ?r1 = "'' + '' @ new_framework f @ '' ('' @ feat @ '')''"
  let ?r2 = "'' ('' @ feat @ '')''"
  let ?L1 = "''- '' @ new_lang f @ ?r1"
  let ?L2 = "''- '' @ new_db f @ ?r2"
  have r1: "NL \<notin> set ?r1" and r2: "NL \<notin> set ?r2"
    using nl by (auto simp: NL_def)
  note p1 = tech_line_props [OF nl(1) r1]
  note p2 = tech_line_props [OF nl(3) r2]
  have l1: "last ?L1 \<noteq> NL" and l2: "last ?L2 \<noteq> NL"
    by (simp_all add: NL_def)
  let ?c1 = "new_lang f \<noteq> [] \<and> \<not> is_in (new_lang f) e"
  let ?c2 = "new_db f \<noteq> [] \<and> \<not> is_in (new_db f) e \<and> new_db f \<noteq> ''N/A''"
  consider (a) "?c1" "?c2" | (b) "?c1" "\<not> ?c2" | (c) "\<not> ?c1" "?c2"
    using ne by (auto simp: tech_additions_def split: if_splits)
  then have J: "join [NL] (tech_additions f feat e) = ?L1 @ NL # ?L2 \<and> ?c1 \<and> ?c2
      \<or> join [NL] (tech_additions f feat e) = ?L1 \<and> ?c1 \<and> \<not> ?c2
      \<or> join [NL] (tech_additions f feat e) = ?L2 \<and> \<not> ?c1 \<and> ?c2"
    by cases (auto simp: tech_additions_def)
  have both: "find_sub blank_line (?L1 @ NL # ?L2) = None"
    using p1(1) p2(1) p1(2) p2(2) by (rule find_blank_two_lines)
  have one1: "find_sub blank_line ?L1 = None" using p1(1) by (rule find_blank_none)
  have one2: "find_sub blank_line ?L2 = None" using p2(1) by (rule find_blank_none)
  have in2: "is_in (new_db f) (?L1 @ NL # ?L2)"
    using is_in_append_right [OF p2(4), of "?L1 @ [NL]"] by simp
  have in1: "is_in (new_lang f) (?L1 @ NL # ?L2)"
    using is_in_append_left [OF p1(4), of "NL # ?L2"] by simp
  have hd1: "hd (?L1 @ NL # ?L2) \<noteq> NL" by (simp add: NL_def)
  have la1: "last (?L1 @ NL # ?L2) \<noteq> NL" by (simp add: NL_def)
  from J show "join [NL] (tech_additions f feat e) \<noteq> []" by auto
  from J p1(3) p2(3) hd1 show "hd (join [NL] (tech_additions f feat e)) \<noteq> NL"
    by (elim disjE conjE) (simp_all only:, simp_all)
  from J l1 l2 la1 show "last (join [NL] (tech_additions f feat e)) \<noteq> NL"
    by (elim disjE conjE) (simp_all only:, simp_all)
  from J both one1 one2 show "find_sub blank_line (join [NL] (tech_additions f feat e)) = None"
    by (elim disjE conjE) (simp_all only:)
  show "is_in (new_lang f) (join [NL] (tech_additions f feat e))"
    if "new_lang f \<noteq> []" "\<not> is_in (new_lang f) e"
    using J that in1 p1(4) by (elim disjE conjE) (simp_all only:, simp_all)
  show "is_in (new_db f) (join [NL] (tech_additions f feat e))"
    if "new_db f \<noteq> []" "\<not> is_in (new_db f) e" "new_db f \<noteq> ''N/A''"
    using J that in2 p2(4) by (elim disjE conjE) (simp_all only:, simp_all)
qed

lemma search_lazy_Some:
  "search_lazy H T s = Some (b, e, a) \<longleftrightarrow>
     find_sub H s = Some (b, e @ T @ a) \<and> find_sub T (e @ T @ a) = Some (e, a)"
proof
  assume "search_lazy H T s = Some (b, e, a)"
  then obtain r where r: "find_sub H s = Some (b, r)" "find_sub T r = Some (e, a)"
    by (auto simp: search_lazy_def split: option.splits)
  from find_sub_decomp [OF r(2)] r
  show "find_sub H s = Some (b, e @ T @ a) \<and> find_sub T (e @ T @ a) = Some (e, a)" by simp
next
  assume "find_sub H s = Some (b, e @ T @ a) \<and> find_sub T (e @ T @ a) = Some (e, a)"
  then show "search_lazy H T s = Some (b, e, a)" by (simp add: search_lazy_def)
qed

lemma tech_step_fixed:
  assumes "find_sub tech_header s = Some (b, e @ blank_line @ r)"
    and "find_sub blank_line (e @ blank_line @ r) = Some (e, r)"
    and "tech_additions f feat e = []"
  shows "tech_step f feat s = s" and "tech_section s = b @ tech_header @ e @ blank_line"
proof -
  from assms(1,2) have "search_lazy tech_header blank_line s = Some (b, e, r)"
    by (simp add: search_lazy_Some)
  with assms(3) show "tech_step f feat s = s" and "tech_section s = b @ tech_header @ e @ blank_line"
    by (simp_all add: tech_step_def tech_section_def)
qed

lemma tech_step_shape:
  assumes s: "search_lazy tech_header blank_line c = Some (b, e, a)"
    and nl: "NL \<notin> set (new_lang f)" "NL \<notin> set (new_framework f)" "NL \<notin> set (new_db f)"
      "NL \<notin> set feat"
  shows "\<exists>e1 r. tech_step f feat c = b @ tech_header @ e1 @ blank_line @ r
          \<and> find_sub tech_header (tech_step f feat c) = Some (b, e1 @ blank_line @ r)
          \<and> find_sub blank_line (e1 @ blank_line @ r) = Some (e1, r)
          \<and> tech_additions f feat e1 = []"
proof -
  from s have fh: "find_sub tech_header c = Some (b, e @ blank_line @ a)"
    and fb: "find_sub blank_line (e @ blank_line @ a) = Some (e, a)"
    by (simp_all add: search_lazy_Some)
  have c: "c = b @ tech_header @ e @ blank_line @ a"
    using find_sub_decomp [OF fh] .
  show ?thesis
  proof (cases "tech_additions f feat e = []")
    case True
    with s have "tech_step f feat c = c" by (simp add: tech_step_def)
    with c fh fb True show ?thesis by metis
  next
    case False
    let ?J = "join [NL] (tech_additions f feat e)"
    let ?old = "tech_header @ e @ blank_line"
    let ?new = "tech_header @ (e @ [NL] @ ?J) @ blank_line"
    let ?a' = "replace_all ?old ?new a"
    note J = additions_joined [OF nl False]
    have t: "tech_step f feat c = replace_all ?old ?new c"
      using s False by (simp add: tech_step_def Let_def)
    have fh': "find_sub tech_header (b @ ?old @ a) = Some (b, e @ blank_line @ a)"
      using fh c by simp
    have "replace_all ?old ?new (b @ ?old @ a) = b @ ?new @ ?a'"
      using fh' by (rule replace_all_first) (simp_all add: tech_header_def)
    with t c have t': "tech_step f feat c = b @ tech_header @ (e @ NL # ?J) @ blank_line @ ?a'"
      by simp
    have f1: "find_sub tech_header (tech_step f feat c) = Some (b, (e @ NL # ?J) @ blank_line @ ?a')"
      unfolding t' using find_sub_extend [OF fh] by simp
    obtain y J' where yJ: "?J = y # J'" using J(1) by (cases ?J) auto
    with J(2) have y: "y \<noteq> NL" by simp
    have "find_sub blank_line (?J @ blank_line @ ?a') = Some (?J, ?a')"
      using J(4) J(1) J(3) by (rule find_blank_after)
    then have "find_sub blank_line (y # J' @ blank_line @ ?a') = Some (y # J', ?a')"
      unfolding yJ by simp
    with find_blank_insert [OF fb y, of "J' @ blank_line @ ?a'"]
    have f2: "find_sub blank_line ((e @ NL # ?J) @ blank_line @ ?a') = Some (e @ NL # ?J, ?a')"
      unfolding yJ by simp
    have lang: "is_in (new_lang f) (e @ NL # ?J)" if "new_lang f \<noteq> []"
    proof (cases "is_in (new_lang f) e")
      case True
      then show ?thesis by (rule is_in_append_left)
    next
      case False
      from J(5) [OF that False] show ?thesis
        using is_in_append_right [of "new_lang f" ?J "e @ [NL]"] by simp
    qed
    have db: "is_in (new_db f) (e @ NL # ?J)" if "new_db f \<noteq> []" "new_db f \<noteq> ''N/A''"
    proof (cases "is_in (new_db f) e")
      case True
      then show ?thesis by (rule is_in_append_left)
    next
      case False
      from J(6) [OF that(1) False that(2)] show ?thesis
        using is_in_append_right [of "new_db f" ?J "e @ [NL]"] by simp
    qed
    have none: "tech_additions f feat (e @ NL # ?J) = []"
      using lang db by (auto simp: tech_additions_def)
    from t' f1 f2 none show ?thesis by blast
  qed
qed

lemma no_match_before:
  assumes px: "prefix pat (drop i (P0 @ blank_line @ r))"
    and i: "i < length (P0 @ blank_line)"
    and nsub: "\<not> is_in pat (P0 @ blank_line)"
    and ne: "pat \<noteq> []" and hd: "hd pat \<noteq> NL" and nb: "\<not> is_in blank_line pat"
  shows False
proof -
  from px obtain t where t: "drop i (P0 @ blank_line @ r) = pat @ t"
    by (auto simp: prefix_def)
  show False
  proof (cases "i \<le> length P0")
    case True
    let ?u = "drop i P0"
    have P0: "P0 = take i P0 @ ?u" by simp
    from True t have "pat @ t = ?u @ NL # NL # r"
      by (simp add: blank_line_def)
    then consider (a) w where "pat = ?u @ w" "w @ t = NL # NL # r"
      | (b) w where "pat @ w = ?u" "t = w @ NL # NL # r"
      by (auto simp: append_eq_append_conv2)
    then show False
    proof cases
      case a
      show False
      proof (cases w)
        case Nil
        with a have "P0 @ blank_line = take i P0 @ pat @ blank_line"
          using P0 by simp
        then have "sublist pat (P0 @ blank_line)" unfolding sublist_def by blast
        with nsub show False by (simp add: is_in_sublist)
      next
        case (Cons x w')
        with a(2) have x: "x = NL" by simp
        show False
        proof (cases w')
          case Nil
          with a(1) Cons x have "P0 @ blank_line = take i P0 @ pat @ [NL]"
            using P0 by (simp add: blank_line_def)
          then have "sublist pat (P0 @ blank_line)" unfolding sublist_def by blast
          with nsub show False by (simp add: is_in_sublist)
        next
          case (Cons y w'')
          with a(2) \<open>w = x # w'\<close> have "y = NL" by simp
          with a(1) \<open>w = x # w'\<close> Cons x have "pat = ?u @ blank_line @ w''"
            by (simp add: blank_line_def)
          then have "sublist blank_line pat" unfolding sublist_def by blast
          with nb show False by (simp add: is_in_sublist)
        qed
      qed
    next
      case b
      then have "P0 @ blank_line = take i P0 @ pat @ (w @ blank_line)"
        using P0 by (metis append.assoc)
      then have "sublist pat (P0 @ blank_line)" unfolding sublist_def by blast
      with nsub show False by (simp add: is_in_sublist)
    qed
  next
    case False
    with i have "i = Suc (length P0)" by (simp add: blank_line_def)
    with t have "pat @ t = NL # r" by (simp add: blank_line_def)
    with ne have "hd pat = NL" by (cases pat) auto
    with hd show False by simp
  qed
qed

lemma first_match_after:
  assumes f: "find_sub pat (P0 @ blank_line @ r) = Some (b', a')"
    and nsub: "\<not> is_in pat (P0 @ blank_line)"
    and ne: "pat \<noteq> []" and hd: "hd pat \<noteq> NL" and nb: "\<not> is_in blank_line pat"
  shows "length (P0 @ blank_line) \<le> length b'"
proof (rule ccontr)
  assume "\<not> length (P0 @ blank_line) \<le> length b'"
  then have i: "length b' < length (P0 @ blank_line)" by simp
  from find_sub_decomp [OF f] have "drop (length b') (P0 @ blank_line @ r) = pat @ a'"
    by (metis append_eq_conv_conj)
  then have "prefix pat (drop (length b') (P0 @ blank_line @ r))" by simp
  from no_match_before [OF this i nsub ne hd nb] show False .
qed

lemma longer_prefix:
  assumes "P @ r = b' @ z" and "length P \<le> length b'"
  shows "\<exists>y. b' = P @ y"
  using assms by (metis append_eq_append_conv_if append_take_drop_id)

lemma sub_lazy_keeps_prefix:
  assumes "\<And>b' r'. find_sub H (P @ r) = Some (b', r') \<Longrightarrow> length P \<le> length b'"
  shows "\<exists>r''. sub_lazy H T items (P @ r) = P @ r''"
proof (cases "search_lazy H T (P @ r)")
  case None
  then show ?thesis by (subst sub_lazy.simps) simp
next
  case (Some m)
  obtain b' g1 a where m: "m = (b', g1, a)" by (cases m) auto
  from Some m have f: "find_sub H (P @ r) = Some (b', g1 @ T @ a)"
    by (simp add: search_lazy_Some)
  from find_sub_decomp [OF f] assms [OF f] obtain y where "b' = P @ y"
    using longer_prefix by blast
  with Some m show ?thesis by (subst sub_lazy.simps) simp
qed

lemma sub_changes_keeps_prefix:
  assumes "\<And>b' r'. find_sub recent_changes_header (P @ r) = Some (b', r') \<Longrightarrow> length P \<le> length b'"
  shows "\<exists>r''. sub_changes items (P @ r) = P @ r''"
proof (cases "search_changes (P @ r)")
  case None
  then show ?thesis by (subst sub_changes.simps) simp
next
  case (Some m)
  obtain b' g1 g2 a where m: "m = (b', g1, g2, a)" by (cases m) auto
  from Some m obtain r' where f: "find_sub recent_changes_header (P @ r) = Some (b', r')"
    by (auto simp: search_changes_def split: option.splits prod.splits)
  from find_sub_decomp [OF f] assms [OF f] obtain y where "b' = P @ y"
    using longer_prefix by blast
  with Some m show ?thesis by (subst sub_changes.simps) simp
qed

lemma sub_date_keeps_prefix:
  "\<forall>i<n. \<not> date_at (drop i s) \<Longrightarrow> take n (sub_date items s) = take n s"
proof (induction s arbitrary: n)
  case Nil
  show ?case by simp
next
  case (Cons x s)
  show ?case
  proof (cases n)
    case 0
    then show ?thesis by simp
  next
    case (Suc m)
    from Cons.prems Suc have x: "\<not> date_at (x # s)" by (metis drop0 zero_less_Suc)
    have "\<forall>i<m. \<not> date_at (drop i s)"
    proof (intro allI impI)
      fix i assume "i < m"
      then have "Suc i < n" using Suc by simp
      with Cons.prems have "\<not> date_at (drop (Suc i) (x # s))" by blast
      then show "\<not> date_at (drop i s)" by simp
    qed
    from Cons.IH [OF this] x Suc show ?thesis by simp
  qed
qed

lemma date_at_prefix: "date_at s \<Longrightarrow> prefix ''Last updated: '' s"
  by (simp add: date_at_def)

lemma header_facts:
  "struct_header \<noteq> []" "hd struct_header \<noteq> NL" "\<not> is_in blank_line struct_header"
  "commands_header \<noteq> []" "hd commands_header \<noteq> NL" "\<not> is_in blank_line commands_header"
  "commands_bash_header \<noteq> []" "hd commands_bash_header \<noteq> NL"
  "\<not> is_in blank_line commands_bash_header"
  "recent_changes_header \<noteq> []" "hd recent_changes_header \<noteq> NL"
  "\<not> is_in blank_line recent_changes_header"
  "hd ''Last updated: '' \<noteq> NL" "\<not> is_in blank_line ''Last updated: ''"
  "prefix commands_header commands_bash_header"
  by (simp_all add: struct_header_def commands_header_def commands_bash_header_def
        recent_changes_header_def blank_line_def NL_def is_in_def)

lemma is_in_prefix_trans: "prefix h h' \<Longrightarrow> is_in h' P \<Longrightarrow> is_in h P"
  unfolding is_in_sublist
  by (meson prefix_imp_sublist sublist_order.order_trans)

lemma struct_step_keeps:
  assumes "struct_step f (P0 @ blank_line @ r) = Inr s'"
    and "\<not> is_in struct_header (P0 @ blank_line)"
  shows "\<exists>r'. s' = P0 @ blank_line @ r'"
proof -
  have k: "\<exists>r'. sub_lazy struct_header fence_end items ((P0 @ blank_line) @ r) = (P0 @ blank_line) @ r'"
    for items
    by (rule sub_lazy_keeps_prefix)
       (use first_match_after [OF _ assms(2) header_facts(1,2,3)] in simp)
  from assms(1) have "s' = P0 @ blank_line @ r
      \<or> (\<exists>items. s' = sub_lazy struct_header fence_end items (P0 @ blank_line @ r))"
    by (auto simp: struct_step_def re_sub_lazy_def Let_def split: if_splits option.splits sum.splits)
  with k show ?thesis by auto
qed

lemma commands_step_keeps:
  assumes "commands_step f (P0 @ blank_line @ r) = Inr s'"
    and "\<not> is_in commands_header (P0 @ blank_line)"
  shows "\<exists>r'. s' = P0 @ blank_line @ r'"
proof -
  have nb: "\<not> is_in commands_bash_header (P0 @ blank_line)"
    using assms(2) is_in_prefix_trans [OF header_facts(15)] by blast
  have k1: "\<exists>r'. sub_lazy commands_header blank_line items ((P0 @ blank_line) @ r) = (P0 @ blank_line) @ r'"
    for items
    by (rule sub_lazy_keeps_prefix)
       (use first_match_after [OF _ assms(2) header_facts(4,5,6)] in simp)
  have k2: "\<exists>r'. sub_lazy commands_bash_header fence_end items ((P0 @ blank_line) @ r) = (P0 @ blank_line) @ r'"
    for items
    by (rule sub_lazy_keeps_prefix)
       (use first_match_after [OF _ nb header_facts(7,8,9)] in simp)
  from assms(1) have "s' = P0 @ blank_line @ r
      \<or> (\<exists>items. s' = sub_lazy commands_header blank_line items (P0 @ blank_line @ r))
      \<or> (\<exists>items. s' = sub_lazy commands_bash_header fence_end items (P0 @ blank_line @ r))"
    by (auto simp: commands_step_def re_sub_lazy_def Let_def split: if_splits option.splits sum.splits)
  with k1 k2 show ?thesis by auto
qed

lemma changes_step_keeps:
  assumes "changes_step f feat (P0 @ blank_line @ r) = Inr s'"
    and "\<not> is_in recent_changes_header (P0 @ blank_line)"
  shows "\<exists>r'. s' = P0 @ blank_line @ r'"
proof -
  have k: "\<exists>r'. sub_changes items ((P0 @ blank_line) @ r) = (P0 @ blank_line) @ r'"
    for items
    by (rule sub_changes_keeps_prefix)
       (use first_match_after [OF _ assms(2) header_facts(10,11,12)] in simp)
  from assms(1) have "s' = P0 @ blank_line @ r
      \<or> (\<exists>items. s' = sub_changes items (P0 @ blank_line @ r))"
    by (auto simp: changes_step_def re_sub_changes_def Let_def split: if_splits option.splits sum.splits)
  with k show ?thesis by auto
qed

lemma date_step_keeps:
  assumes "date_step today (P0 @ blank_line @ r) = Inr s'"
    and "\<not> is_in ''Last updated: '' (P0 @ blank_line)"
  shows "\<exists>r'. s' = P0 @ blank_line @ r'"
proof -
  let ?s = "P0 @ blank_line @ r"
  from assms(1) obtain items where s': "s' = sub_date items ?s"
    by (auto simp: date_step_def re_sub_date_def split: sum.splits)
  have "\<forall>i<length (P0 @ blank_line). \<not> date_at (drop i ?s)"
  proof (intro allI impI notI)
    fix i assume i: "i < length (P0 @ blank_line)" and "date_at (drop i ?s)"
    then have "prefix ''Last updated: '' (drop i ?s)" by (simp add: date_at_prefix)
    from no_match_before [OF this i assms(2) _ header_facts(13,14)] show False by simp
  qed
  then have "take (length (P0 @ blank_line)) s' = take (length (P0 @ blank_line)) ?s"
    unfolding s' by (rule sub_date_keeps_prefix)
  then have "take (length (P0 @ blank_line)) s' = P0 @ blank_line" by simp
  then have "s' = (P0 @ blank_line) @ drop (length (P0 @ blank_line)) s'"
    by (metis append_take_drop_id)
  then show ?thesis by (metis append.assoc)
qed

lemma later_steps_keep:
  assumes h: "headers_after (P0 @ blank_line)"
    and run: "(case struct_step f (P0 @ blank_line @ r) of
                 Inl e \<Rightarrow> Inl e
               | Inr c2 \<Rightarrow>
                   (case commands_step f c2 of
                      Inl e \<Rightarrow> Inl e
                    | Inr c3 \<Rightarrow>
                        (case changes_step f feat c3 of
                           Inl e \<Rightarrow> Inl e
                         | Inr c4 \<Rightarrow> date_step today c4))) = Inr c5"
  shows "\<exists>r'. c5 = P0 @ blank_line @ r'"
proof -
  from run obtain c2 c3 c4 where
    s2: "struct_step f (P0 @ blank_line @ r) = Inr c2" and
    s3: "commands_step f c2 = Inr c3" and
    s4: "changes_step f feat c3 = Inr c4" and
    s5: "date_step today c4 = Inr c5"
    by (auto split: sum.splits)
  from h have h': "\<not> is_in struct_header (P0 @ blank_line)"
    "\<not> is_in commands_header (P0 @ blank_line)"
    "\<not> is_in recent_changes_header (P0 @ blank_line)"
    "\<not> is_in ''Last updated: '' (P0 @ blank_line)"
    by (simp_all add: headers_after_def)
  from struct_step_keeps [OF s2 h'(1)] obtain r2 where c2: "c2 = P0 @ blank_line @ r2" by blast
  from commands_step_keeps [OF s3 [unfolded c2] h'(2)] obtain r3 where c3: "c3 = P0 @ blank_line @ r3" by blast
  from changes_step_keeps [OF s4 [unfolded c3] h'(3)] obtain r4 where c4: "c4 = P0 @ blank_line @ r4" by blast
  from date_step_keeps [OF s5 [unfolded c4] h'(4)] show ?thesis .
qed

text \<open>
  Claim C1, amended. Take a context file with an \<^verbatim>\<open>## Active Technologies\<close> section, a
  plan and a feature name without a line break, such that after the technology update no
  \<^verbatim>\<open>## Project Structure\<close>, \<^verbatim>\<open>## Commands\<close> or \<^verbatim>\<open>## Recent Changes\<close> header and no
  "Last updated: " text occurs before the end of that section. If the patch succeeds, a
  second run with the same plan appends no technology line: its technology step leaves the
  file as it is, and the file after the second run has the same text up to the end of the
  section as the file after the first run.
\<close>

theorem second_run_adds_no_technology:
  assumes nl: "NL \<notin> set feat"
    and sec: "search_lazy tech_header blank_line content \<noteq> None"
    and ha: "headers_after (tech_section (tech_step (extract_plan plan) feat content))"
    and run1: "update_existing (extract_plan plan) feat today content = Inr c1"
  shows "tech_step (extract_plan plan) feat c1 = c1
    \<and> tech_section c1 = tech_section (tech_step (extract_plan plan) feat content)
    \<and> (\<forall>c2. update_existing (extract_plan plan) feat today c1 = Inr c2
            \<longrightarrow> tech_section c2 = tech_section c1)"
proof -
  let ?f = "extract_plan plan"
  let ?t = "tech_step ?f feat content"
  from sec obtain b e a where s: "search_lazy tech_header blank_line content = Some (b, e, a)"
    by auto
  from tech_step_shape [OF s extract_plan_no_NL nl, of plan]
  obtain e1 r where t: "?t = b @ tech_header @ e1 @ blank_line @ r"
    and fh: "find_sub tech_header ?t = Some (b, e1 @ blank_line @ r)"
    and fb: "find_sub blank_line (e1 @ blank_line @ r) = Some (e1, r)"
    and none: "tech_additions ?f feat e1 = []"
    by blast
  let ?P0 = "b @ tech_header @ e1"
  have sect: "tech_section ?t = ?P0 @ blank_line"
    using tech_step_fixed(2) [OF fh fb none] by simp
  with ha have h: "headers_after (?P0 @ blank_line)" by simp
  have fixed: "tech_step ?f feat (?P0 @ blank_line @ r') = ?P0 @ blank_line @ r'
      \<and> tech_section (?P0 @ blank_line @ r') = ?P0 @ blank_line" for r'
  proof -
    have a: "find_sub tech_header (b @ tech_header @ e1 @ blank_line @ r') = Some (b, e1 @ blank_line @ r')"
      using find_sub_extend [OF fh] .
    have b: "find_sub blank_line (e1 @ blank_line @ r') = Some (e1, r')"
      using find_sub_extend [OF fb] .
    from tech_step_fixed [OF a b none] show ?thesis by simp
  qed
  from run1 t have "(case struct_step ?f (?P0 @ blank_line @ r) of
                 Inl e \<Rightarrow> Inl e
               | Inr c2 \<Rightarrow>
                   (case commands_step ?f c2 of
                      Inl e \<Rightarrow> Inl e
                    | Inr c3 \<Rightarrow>
                        (case changes_step ?f feat c3 of
                           Inl e \<Rightarrow> Inl e
                         | Inr c4 \<Rightarrow> date_step today c4))) = Inr c1"
    by (simp add: update_existing_def)
  from later_steps_keep [OF h this] obtain r1 where c1: "c1 = ?P0 @ blank_line @ r1" by blast
  have one: "tech_step ?f feat c1 = c1" and two: "tech_section c1 = tech_section ?t"
    using fixed [of r1] c1 sect by simp_all
  have three: "tech_section c2 = tech_section c1"
    if run2: "update_existing ?f feat today c1 = Inr c2" for c2
  proof -
    from run2 one c1 have "(case struct_step ?f (?P0 @ blank_line @ r1) of
                 Inl e \<Rightarrow> Inl e
               | Inr c2 \<Rightarrow>
                   (case commands_step ?f c2 of
                      Inl e \<Rightarrow> Inl e
                    | Inr c3 \<Rightarrow>
                        (case changes_step ?f feat c3 of
                           Inl e \<Rightarrow> Inl e
                         | Inr c4 \<Rightarrow> date_step today c4))) = Inr c2"
      by (simp add: update_existing_def)
    from later_steps_keep [OF h this] obtain r2 where "c2 = ?P0 @ blank_line @ r2" by blast
    with fixed [of r2] two sect show ?thesis by simp
  qed
  from one two three show ?thesis by blast
qed

theorem second_run_adds_no_technology_witness:
  "NL \<notin> set ''002-b''
   \<and> search_lazy tech_header blank_line tech_context_example \<noteq> None
   \<and> headers_after (tech_section (tech_step (extract_plan go_plan) ''002-b'' tech_context_example))
   \<and> update_existing (extract_plan go_plan) ''002-b'' ''2026-11-06'' tech_context_example
        = Inr tech_patched_once
   \<and> tech_step (extract_plan go_plan) ''002-b'' tech_patched_once = tech_patched_once
   \<and> update_existing (extract_plan go_plan) ''002-b'' ''2026-11-06'' tech_patched_once
        = Inr tech_patched_twice
   \<and> tech_section tech_patched_twice = tech_section tech_patched_once"
proof -
  have a: "NL \<notin> set ''002-b''" by code_simp
  have b: "search_lazy tech_header blank_line tech_context_example \<noteq> None" by code_simp
  have c: "headers_after (tech_section (tech_step (extract_plan go_plan) ''002-b'' tech_context_example))"
    by code_simp
  have d: "update_existing (extract_plan go_plan) ''002-b'' ''2026-11-06'' tech_context_example
        = Inr tech_patched_once"
    by code_simp
  have e: "update_existing (extract_plan go_plan) ''002-b'' ''2026-11-06'' tech_patched_once
        = Inr tech_patched_twice"
    by code_simp
  show ?thesis
    using a b c d e second_run_adds_no_technology [OF a b c d] by simp
qed

text \<open>
  Both conditions are needed. When the "Recent Changes" header stands inside the
  technology section, the first run cuts the storage line away again and the second run
  appends it once more; so does a feature name that holds a blank line, which ends the
  section inside the first appended line.
\<close>

lemma overlapping_sections_repeat_technology:
  "\<not> headers_after (tech_section (tech_step (extract_plan storage_plan) ''002-b'' overlapping_example))
   \<and> update_existing (extract_plan storage_plan) ''002-b'' ''2026-11-06'' overlapping_example
        = Inr overlapping_patched
   \<and> tech_step (extract_plan storage_plan) ''002-b'' overlapping_patched
        = ''## Active Technologies\<newline>- x\<newline>'' @
          ''## Recent Changes\<newline>- 002-b: Added Go + \<newline>- a\<newline>- b\<newline>'' @
          ''- PostgreSQL (002-b)\<newline>\<newline>''"
  by code_simp

lemma blank_line_in_feature_repeats_technology:
  "tech_step (extract_plan storage_plan) ''7\<newline>\<newline>8''
      ''## Active Technologies\<newline>- x\<newline>\<newline>''
     = ''## Active Technologies\<newline>- x\<newline>'' @
       ''- Go +  (7\<newline>\<newline>8)\<newline>- PostgreSQL (7\<newline>\<newline>8)\<newline>\<newline>''
   \<and> tech_step (extract_plan storage_plan) ''7\<newline>\<newline>8''
        (''## Active Technologies\<newline>- x\<newline>'' @
         ''- Go +  (7\<newline>\<newline>8)\<newline>- PostgreSQL (7\<newline>\<newline>8)\<newline>\<newline>'')
     = ''## Active Technologies\<newline>- x\<newline>'' @
       ''- Go +  (7\<newline>- PostgreSQL (7\<newline>\<newline>8)\<newline>\<newline>'' @
       ''8)\<newline>- PostgreSQL (7\<newline>\<newline>8)\<newline>\<newline>''"
  by code_simp

end
